theory Spec2Isabelle
  imports Complex_Main "HOL-Library.Multiset"
begin

section \<open>Link-prediction pipeline of medical-kg-drug-repurposing\<close>

text \<open>
  A shallow embedding of the ML scripts (\<^verbatim>\<open>scripts/ml/*.py\<close>) and of the model module
  (\<^verbatim>\<open>models/gnn_link_predictor.py\<close>). Tensors of shape \<open>[2, M]\<close> are lists of their
  \<open>M\<close> columns, each column an index pair. Floating-point values that the code only
  compares, or that are the exact constants 0.0 and 1.0, are reals (labels, ratios) or
  elements of an arbitrary linear order (probabilities). Exceptions are values of
  \<open>error\<close>.
\<close>

type_synonym edge = "nat \<times> nat"

datatype error = ValueError | IndexError | KeyError | ZeroDivisionError | TypeError
  | FileNotFoundError

subsection \<open>Library behaviour the scripts rely on\<close>

text \<open>
  numpy's generator: a seed selects a stream of raw outputs (\<open>mt seed\<close>, the Mersenne
  Twister's stream, a parameter of the model) and the state is the stream with the
  position reached. \<^verbatim>\<open>np.random.seed\<close> and \<^verbatim>\<open>RandomState(seed)\<close> refuse a seed
  outside \<open>[0, 2^32)\<close>.
\<close>

type_synonym rand_state = "(nat \<Rightarrow> nat) \<times> nat"

definition seed_rng :: "(int \<Rightarrow> nat \<Rightarrow> nat) \<Rightarrow> int \<Rightarrow> error + rand_state" where
  "seed_rng mt seed = (if seed < 0 \<or> 2 ^ 32 \<le> seed then Inl ValueError else Inr (mt seed, 0))"

definition randbelow :: "rand_state \<Rightarrow> nat \<Rightarrow> nat \<times> rand_state" where
  "randbelow st n = (fst st (snd st) mod n, (fst st, Suc (snd st)))"

text \<open>\<^verbatim>\<open>np.random.choice(a)\<close> on a list: one element, ValueError on an empty list.\<close>

definition choice :: "rand_state \<Rightarrow> 'a list \<Rightarrow> error + ('a \<times> rand_state)" where
  "choice st xs =
     (if xs = [] then Inl ValueError
      else (case randbelow st (length xs) of (j, st') \<Rightarrow> Inr (xs ! j, st')))"

text \<open>
  \<^verbatim>\<open>np.random.permutation(n)\<close> shuffles \<open>arange(n)\<close> in place:
  \<^verbatim>\<open>for i in reversed(range(1, n)): j = interval(i); x[i], x[j] = x[j], x[i]\<close>.
\<close>

definition swap :: "'a list \<Rightarrow> nat \<Rightarrow> nat \<Rightarrow> 'a list" where
  "swap xs i j = xs[i := xs ! j, j := xs ! i]"

fun shuffle_loop :: "nat \<Rightarrow> 'a list \<Rightarrow> rand_state \<Rightarrow> 'a list \<times> rand_state" where
  "shuffle_loop 0 xs st = (xs, st)"
| "shuffle_loop (Suc i) xs st =
     (case randbelow st (Suc (Suc i)) of (j, st') \<Rightarrow> shuffle_loop i (swap xs (Suc i) j) st')"

definition permutation :: "rand_state \<Rightarrow> nat \<Rightarrow> nat list \<times> rand_state" where
  "permutation st n = shuffle_loop (n - 1) [0..<n] st"

text \<open>Fancy indexing \<^verbatim>\<open>a[perm]\<close> with indices that a permutation of \<open>len(a)\<close> supplies.\<close>

definition take_rows :: "'a list \<Rightarrow> nat list \<Rightarrow> 'a list" where
  "take_rows xs idx = map (\<lambda>i. xs ! i) idx"

text \<open>
  \<^verbatim>\<open>np.argsort(v)\<close>: the indices of \<open>v\<close> in ascending order of value. Equal values
  keep their index order here (the order of a stable sort, which is also what numpy's
  insertion sort does on short arrays).
\<close>

definition argsort :: "('p::linorder) list \<Rightarrow> nat list" where
  "argsort v = sort_key (\<lambda>i. v ! i) [0..<length v]"

text \<open>Python's slice \<^verbatim>\<open>xs[:k]\<close> for an integer \<open>k\<close> of either sign.\<close>

definition py_take :: "int \<Rightarrow> 'a list \<Rightarrow> 'a list" where
  "py_take k xs = (if 0 \<le> k then take (nat k) xs else take (length xs - nat (- k)) xs)"

text \<open>
  sklearn's \<^verbatim>\<open>train_test_split(arr, train_size=r, random_state=seed)\<close> with a float
  \<open>r\<close>: \<open>r\<close> must lie strictly between 0 and 1, the train part has
  \<open>floor(r * n)\<close> rows and must not be empty, the test part has the rest; the test rows
  are the first \<open>n_test\<close> entries of a seeded permutation, the train rows the next
  \<open>n_train\<close>.
\<close>

definition validate_shuffle_split :: "nat \<Rightarrow> real \<Rightarrow> error + (nat \<times> nat)" where
  "validate_shuffle_split n train_size =
     (if train_size \<le> 0 \<or> 1 \<le> train_size then Inl ValueError
      else (let n_train = nat \<lfloor>train_size * real n\<rfloor>; n_test = n - n_train
            in if n_train = 0 then Inl ValueError else Inr (n_train, n_test)))"

definition train_test_split ::
  "(int \<Rightarrow> nat \<Rightarrow> nat) \<Rightarrow> 'a list \<Rightarrow> real \<Rightarrow> int \<Rightarrow> error + ('a list \<times> 'a list)" where
  "train_test_split mt arr train_size seed =
     (case validate_shuffle_split (length arr) train_size of
        Inl e \<Rightarrow> Inl e
      | Inr (n_train, n_test) \<Rightarrow>
          (case seed_rng mt seed of
             Inl e \<Rightarrow> Inl e
           | Inr st \<Rightarrow>
               (let perm = fst (permutation st (length arr))
                in Inr (take_rows arr (take n_train (drop n_test perm)),
                        take_rows arr (take n_test perm)))))"

text \<open>Python's \<^verbatim>\<open>int(x)\<close> on a float: truncation towards zero.\<close>

definition py_int :: "real \<Rightarrow> int" where
  "py_int x = (if 0 \<le> x then \<lfloor>x\<rfloor> else \<lceil>x\<rceil>)"

subsection \<open>Data written and read by the scripts\<close>

text \<open>
  The bundle of \<^verbatim>\<open>export_graph_data.py\<close> as far as the later stages read it, and one
  split as \<^verbatim>\<open>prepare_splits\<close> builds it. \<open>x\<close> is the shared node feature matrix.
\<close>

record 'x graph_data =
  g_x :: 'x
  g_edge_index :: "edge list"
  g_num_drugs :: nat
  g_num_diseases :: nat

record 'x split_data =
  x :: 'x
  edge_index :: "edge list"
  labels :: "real list"
  num_pos :: nat
  num_neg :: nat

record split_stats =
  total :: nat
  positive :: nat
  negative :: nat
  pos_ratio :: real

record stats =
  stats_train :: split_stats
  stats_val :: split_stats
  stats_test :: split_stats
  param_train_ratio :: real
  param_val_ratio :: real
  param_test_ratio :: real
  param_neg_ratio :: real
  param_seed :: int

text \<open>
  Mutable state outside the functions: Python set objects, each at an address of a
  store, and the files under \<^verbatim>\<open>data/processed\<close>.
\<close>

record 'x world =
  cells :: "nat \<Rightarrow> edge set"
  next_addr :: nat
  files :: "string \<Rightarrow> 'x split_data option"

definition new_set :: "'x world \<Rightarrow> edge set \<Rightarrow> nat \<times> 'x world" where
  "new_set w s = (next_addr w, w\<lparr>cells := (cells w)(next_addr w := s), next_addr := Suc (next_addr w)\<rparr>)"

definition copy_set :: "'x world \<Rightarrow> nat \<Rightarrow> nat \<times> 'x world" where
  "copy_set w a = new_set w (cells w a)"

definition set_add :: "'x world \<Rightarrow> nat \<Rightarrow> edge \<Rightarrow> 'x world" where
  "set_add w a e = w\<lparr>cells := (cells w)(a := insert e (cells w a))\<rparr>"

definition torch_save :: "'x world \<Rightarrow> string \<Rightarrow> 'x split_data \<Rightarrow> 'x world" where
  "torch_save w path d = w\<lparr>files := (files w)(path := Some d)\<rparr>"

definition torch_load :: "'x world \<Rightarrow> string \<Rightarrow> error + 'x split_data" where
  "torch_load w path = (case files w path of None \<Rightarrow> Inl FileNotFoundError | Some d \<Rightarrow> Inr d)"

subsection \<open>\<^verbatim>\<open>prepare_training_data.py\<close>\<close>

text \<open>
  The loop of \<^verbatim>\<open>generate_negative_samples\<close>. Its state is the generator, the list
  \<^verbatim>\<open>negative_edges\<close>, the store holding the set object at address \<open>a\<close>, and
  \<^verbatim>\<open>attempts\<close>; the final value of \<^verbatim>\<open>attempts\<close> is returned with the rest.
\<close>

function neg_loop ::
  "nat list \<Rightarrow> nat list \<Rightarrow> int \<Rightarrow> int \<Rightarrow> nat \<Rightarrow> rand_state \<Rightarrow> edge list \<Rightarrow> 'x world \<Rightarrow> nat
     \<Rightarrow> error + (edge list \<times> 'x world \<times> nat)" where
  "neg_loop drug_indices disease_indices num_negatives max_attempts a st negative_edges w attempts =
     (if int (length negative_edges) < num_negatives \<and> int attempts < max_attempts then
        (case choice st drug_indices of
           Inl e \<Rightarrow> Inl e
         | Inr (drug_idx, st1) \<Rightarrow>
             (case choice st1 disease_indices of
                Inl e \<Rightarrow> Inl e
              | Inr (disease_idx, st2) \<Rightarrow>
                  (if (drug_idx, disease_idx) \<notin> cells w a
                   then neg_loop drug_indices disease_indices num_negatives max_attempts a st2
                          (negative_edges @ [(drug_idx, disease_idx)])
                          (set_add w a (drug_idx, disease_idx)) (Suc attempts)
                   else neg_loop drug_indices disease_indices num_negatives max_attempts a st2
                          negative_edges w (Suc attempts))))
      else Inr (negative_edges, w, attempts))"
  by pat_completeness auto
termination
  by (relation "measure (\<lambda>(drugs, diseases, n, m, a, st, negs, w, att). nat (m - int att))") auto

declare neg_loop.simps [simp del]

definition sample_negatives ::
  "(int \<Rightarrow> nat \<Rightarrow> nat) \<Rightarrow> nat \<Rightarrow> nat \<Rightarrow> int \<Rightarrow> 'x world \<Rightarrow> nat \<Rightarrow> int
     \<Rightarrow> error + (edge list \<times> 'x world \<times> nat)" where
  "sample_negatives mt num_drugs num_diseases num_negatives w existing_edges_set seed =
     (case seed_rng mt seed of
        Inl e \<Rightarrow> Inl e
      | Inr st \<Rightarrow>
          neg_loop [0..<num_drugs] [num_drugs..<num_drugs + num_diseases]
            num_negatives (num_negatives * 10) existing_edges_set st [] w 0)"

text \<open>
  \<^verbatim>\<open>generate_negative_samples(num_negatives, existing_edges_set, seed)\<close> returns the
  list; the set object it was given stays changed in the store.
\<close>

definition generate_negative_samples ::
  "(int \<Rightarrow> nat \<Rightarrow> nat) \<Rightarrow> nat \<Rightarrow> nat \<Rightarrow> int \<Rightarrow> 'x world \<Rightarrow> nat \<Rightarrow> int
     \<Rightarrow> error + (edge list \<times> 'x world)" where
  "generate_negative_samples mt num_drugs num_diseases num_negatives w existing_edges_set seed =
     (case sample_negatives mt num_drugs num_diseases num_negatives w existing_edges_set seed of
        Inl e \<Rightarrow> Inl e
      | Inr (negative_edges, w', attempts) \<Rightarrow> Inr (negative_edges, w'))"

text \<open>
  \<^verbatim>\<open>np.vstack([pos, neg])\<close> of an \<open>(n, 2)\<close> array and a Python list of pairs: an empty
  list is an array of shape \<open>(1, 0)\<close>, which does not stack on two columns.
\<close>

definition vstack :: "edge list \<Rightarrow> edge list \<Rightarrow> error + edge list" where
  "vstack pos neg = (if neg = [] then Inl ValueError else Inr (pos @ neg))"

definition make_labels :: "edge list \<Rightarrow> edge list \<Rightarrow> real list" where
  "make_labels pos neg = replicate (length pos) 1 @ replicate (length neg) 0"

definition make_split :: "'x \<Rightarrow> edge list \<Rightarrow> real list \<Rightarrow> nat list \<Rightarrow> nat \<Rightarrow> nat \<Rightarrow> 'x split_data" where
  "make_split feats edges labs perm npos nneg =
     \<lparr>x = feats, edge_index = take_rows edges perm, labels = take_rows labs perm,
      num_pos = npos, num_neg = nneg\<rparr>"

definition make_stats :: "edge list \<Rightarrow> edge list \<Rightarrow> edge list \<Rightarrow> split_stats" where
  "make_stats edges pos neg =
     \<lparr>total = length edges, positive = length pos, negative = length neg,
      pos_ratio = real (length pos) / real (length edges)\<rparr>"

text \<open>
  \<^verbatim>\<open>prepare_splits\<close> in its three stages. The last one, from the stacking of
  positives and negatives on: labels, the three seeded permutations, the three files,
  the statistics.
\<close>

definition assemble_splits ::
  "(int \<Rightarrow> nat \<Rightarrow> nat) \<Rightarrow> 'x \<Rightarrow> real \<Rightarrow> real \<Rightarrow> real \<Rightarrow> real \<Rightarrow> int
     \<Rightarrow> edge list \<Rightarrow> edge list \<Rightarrow> edge list \<Rightarrow> edge list \<Rightarrow> edge list \<Rightarrow> edge list \<Rightarrow> 'x world
     \<Rightarrow> error + (('x split_data \<times> 'x split_data \<times> 'x split_data \<times> stats) \<times> 'x world)" where
  "assemble_splits mt feats train_ratio val_ratio test_ratio neg_ratio seed
      train_pos val_pos test_pos train_neg val_neg test_neg w =
     (case vstack train_pos train_neg of Inl e \<Rightarrow> Inl e | Inr train_edges \<Rightarrow>
     (case vstack val_pos val_neg of Inl e \<Rightarrow> Inl e | Inr val_edges \<Rightarrow>
     (case vstack test_pos test_neg of Inl e \<Rightarrow> Inl e | Inr test_edges \<Rightarrow>
     (case seed_rng mt seed of Inl e \<Rightarrow> Inl e | Inr st \<Rightarrow>
     (case permutation st (length train_edges) of (train_perm, st1) \<Rightarrow>
     (case permutation st1 (length val_edges) of (val_perm, st2) \<Rightarrow>
     (case permutation st2 (length test_edges) of (test_perm, st3) \<Rightarrow>
        (let train_data = make_split feats train_edges (make_labels train_pos train_neg) train_perm
                            (length train_pos) (length train_neg);
             val_data = make_split feats val_edges (make_labels val_pos val_neg) val_perm
                            (length val_pos) (length val_neg);
             test_data = make_split feats test_edges (make_labels test_pos test_neg) test_perm
                            (length test_pos) (length test_neg);
             w1 = torch_save w ''data/processed/train_data.pt'' train_data;
             w2 = torch_save w1 ''data/processed/val_data.pt'' val_data;
             w3 = torch_save w2 ''data/processed/test_data.pt'' test_data;
             st = \<lparr>stats_train = make_stats train_edges train_pos train_neg,
                   stats_val = make_stats val_edges val_pos val_neg,
                   stats_test = make_stats test_edges test_pos test_neg,
                   param_train_ratio = train_ratio, param_val_ratio = val_ratio,
                   param_test_ratio = test_ratio, param_neg_ratio = neg_ratio,
                   param_seed = seed\<rparr>
         in Inr ((train_data, val_data, test_data, st), w3)))))))))"

text \<open>
  The second stage: the three sampling calls, each on \<^verbatim>\<open>existing_edges_set.copy()\<close>,
  a new set object, with seeds \<open>seed\<close>, \<open>seed + 1\<close>, \<open>seed + 2\<close>. The first stage: the
  two calls of \<^verbatim>\<open>train_test_split\<close>. Then
  \<^verbatim>\<open>prepare_splits(train_ratio, val_ratio, test_ratio, neg_ratio, seed)\<close> on the loaded
  graph bundle.
\<close>

definition sample_three ::
  "(int \<Rightarrow> nat \<Rightarrow> nat) \<Rightarrow> nat \<Rightarrow> nat \<Rightarrow> int \<Rightarrow> int \<Rightarrow> int \<Rightarrow> int \<Rightarrow> nat \<Rightarrow> 'x world
     \<Rightarrow> error + ((edge list \<times> edge list \<times> edge list) \<times> 'x world)" where
  "sample_three mt num_drugs num_diseases num_train_neg num_val_neg num_test_neg seed
      existing_edges_set w =
     (case copy_set w existing_edges_set of (c1, w1) \<Rightarrow>
     (case generate_negative_samples mt num_drugs num_diseases num_train_neg w1 c1 seed of
        Inl e \<Rightarrow> Inl e
      | Inr (train_neg, w2) \<Rightarrow>
     (case copy_set w2 existing_edges_set of (c2, w3) \<Rightarrow>
     (case generate_negative_samples mt num_drugs num_diseases num_val_neg w3 c2 (seed + 1) of
        Inl e \<Rightarrow> Inl e
      | Inr (val_neg, w4) \<Rightarrow>
     (case copy_set w4 existing_edges_set of (c3, w5) \<Rightarrow>
     (case generate_negative_samples mt num_drugs num_diseases num_test_neg w5 c3 (seed + 2) of
        Inl e \<Rightarrow> Inl e
      | Inr (test_neg, w6) \<Rightarrow> Inr ((train_neg, val_neg, test_neg), w6)))))))"

definition split_positives ::
  "(int \<Rightarrow> nat \<Rightarrow> nat) \<Rightarrow> edge list \<Rightarrow> real \<Rightarrow> real \<Rightarrow> real \<Rightarrow> int
     \<Rightarrow> error + (edge list \<times> edge list \<times> edge list)" where
  "split_positives mt positive_edges train_ratio val_ratio test_ratio seed =
     (case train_test_split mt positive_edges train_ratio seed of
        Inl e \<Rightarrow> Inl e
      | Inr (train_pos, temp) \<Rightarrow>
          (if val_ratio + test_ratio = 0 then Inl ZeroDivisionError
           else (case train_test_split mt temp (val_ratio / (val_ratio + test_ratio)) seed of
                   Inl e \<Rightarrow> Inl e
                 | Inr (val_pos, test_pos) \<Rightarrow> Inr (train_pos, val_pos, test_pos))))"

definition prepare_splits ::
  "(int \<Rightarrow> nat \<Rightarrow> nat) \<Rightarrow> 'x graph_data \<Rightarrow> real \<Rightarrow> real \<Rightarrow> real \<Rightarrow> real \<Rightarrow> int \<Rightarrow> 'x world
     \<Rightarrow> error + (('x split_data \<times> 'x split_data \<times> 'x split_data \<times> stats) \<times> 'x world)" where
  "prepare_splits mt data train_ratio val_ratio test_ratio neg_ratio seed w =
     (let positive_edges = g_edge_index data in
      (case new_set w (set positive_edges) of (existing_edges_set, w0) \<Rightarrow>
      (case split_positives mt positive_edges train_ratio val_ratio test_ratio seed of
         Inl e \<Rightarrow> Inl e
       | Inr (train_pos, val_pos, test_pos) \<Rightarrow>
      (case sample_three mt (g_num_drugs data) (g_num_diseases data)
              (py_int (real (length train_pos) * neg_ratio))
              (py_int (real (length val_pos) * neg_ratio))
              (py_int (real (length test_pos) * neg_ratio)) seed existing_edges_set w0 of
         Inl e \<Rightarrow> Inl e
       | Inr ((train_neg, val_neg, test_neg), w6) \<Rightarrow>
           assemble_splits mt (g_x data) train_ratio val_ratio test_ratio neg_ratio seed
             train_pos val_pos test_pos train_neg val_neg test_neg w6))))"

text \<open>
  \<^verbatim>\<open>train_gnn.py\<close> and \<^verbatim>\<open>evaluate_gnn.py\<close>, \<^verbatim>\<open>main\<close>: the structure handed to
  every forward pass is \<^verbatim>\<open>train_data['edge_index'][:, :train_data['num_pos']]\<close> of the
  loaded train file.
\<close>

definition leading_columns :: "'x split_data \<Rightarrow> edge list" where
  "leading_columns train_data = take (num_pos train_data) (edge_index train_data)"

definition train_positive_edges :: "'x world \<Rightarrow> error + edge list" where
  "train_positive_edges w =
     (case torch_load w ''data/processed/train_data.pt'' of
        Inl e \<Rightarrow> Inl e
      | Inr train_data \<Rightarrow> Inr (leading_columns train_data))"

text \<open>The positive and the negative pairs of a split, read off its labels.\<close>

definition positives :: "'x split_data \<Rightarrow> edge list" where
  "positives d = map fst (filter (\<lambda>p. snd p = 1) (zip (edge_index d) (labels d)))"

definition negatives :: "'x split_data \<Rightarrow> edge list" where
  "negatives d = map fst (filter (\<lambda>p. snd p = 0) (zip (edge_index d) (labels d)))"

subsection \<open>\<^verbatim>\<open>export_graph_data.py\<close>\<close>

record node_row =
  node_id :: string
  node_name :: string
  node_frequency :: real
  node_num_papers :: real

record treats_row =
  drug_id :: string
  disease_id :: string
  confidence :: real
  rel_num_papers :: real

datatype message = TotalEdges nat | ValidEdges nat

record node_maps =
  node_to_idx :: "string \<Rightarrow> nat option"
  idx_to_node :: "nat \<Rightarrow> (string \<times> string \<times> string) option"
  node_features :: "real list list"
  node_labels :: "nat list"
  idx :: nat

text \<open>One pass of a loop of \<^verbatim>\<open>create_node_mappings\<close> over the rows of one type.\<close>

fun add_nodes :: "string \<Rightarrow> nat \<Rightarrow> node_row list \<Rightarrow> node_maps \<Rightarrow> node_maps" where
  "add_nodes ty lab [] m = m"
| "add_nodes ty lab (r # rs) m =
     add_nodes ty lab rs
       \<lparr>node_to_idx = (node_to_idx m)(node_id r := Some (idx m)),
        idx_to_node = (idx_to_node m)(idx m := Some (node_id r, node_name r, ty)),
        node_features = node_features m @ [[node_frequency r, node_num_papers r]],
        node_labels = node_labels m @ [lab],
        idx = Suc (idx m)\<rparr>"

definition create_node_mappings :: "node_row list \<Rightarrow> node_row list \<Rightarrow> node_maps" where
  "create_node_mappings drugs diseases =
     add_nodes ''disease'' 1 diseases
       (add_nodes ''drug'' 0 drugs
          \<lparr>node_to_idx = (\<lambda>_. None), idx_to_node = (\<lambda>_. None), node_features = [],
           node_labels = [], idx = 0\<rparr>)"

text \<open>
  The loop of \<^verbatim>\<open>export_edges\<close> over the rows that the query returned, and the function
  with the two lines it prints. No statement of it raises.
\<close>

fun edges_loop ::
  "(string \<Rightarrow> nat option) \<Rightarrow> treats_row list \<Rightarrow> edge list \<times> real list list
     \<Rightarrow> edge list \<times> real list list" where
  "edges_loop n2i [] acc = acc"
| "edges_loop n2i (e # es) (edge_idx, edge_attr) =
     (case (n2i (drug_id e), n2i (disease_id e)) of
        (Some drug_idx, Some disease_idx) \<Rightarrow>
          edges_loop n2i es
            (edge_idx @ [(drug_idx, disease_idx)], edge_attr @ [[confidence e, rel_num_papers e]])
      | _ \<Rightarrow> edges_loop n2i es (edge_idx, edge_attr))"

definition export_edges ::
  "(string \<Rightarrow> nat option) \<Rightarrow> treats_row list
     \<Rightarrow> error + ((edge list \<times> real list list) \<times> message list)" where
  "export_edges n2i edges =
     (case edges_loop n2i edges ([], []) of
        (edge_idx, edge_attr) \<Rightarrow>
          Inr ((edge_idx, edge_attr), [TotalEdges (length edges), ValidEdges (length edge_idx)]))"

text \<open>
  \<^verbatim>\<open>export_graph\<close> up to the edge list: the node mappings of the exported nodes, then
  the edges over them.
\<close>

definition export_graph_edges ::
  "node_row list \<Rightarrow> node_row list \<Rightarrow> treats_row list
     \<Rightarrow> error + ((edge list \<times> real list list) \<times> message list)" where
  "export_graph_edges drugs diseases edges =
     export_edges (node_to_idx (create_node_mappings drugs diseases)) edges"

subsection \<open>\<^verbatim>\<open>models/gnn_link_predictor.py\<close>\<close>

text \<open>
  A result tensor with no dimension or with one. The layers of torch and
  torch-geometric are parameters: the two SAGE convolutions, ReLU followed by dropout,
  and the decoder's \<^verbatim>\<open>nn.Sequential\<close>, which maps row \<open>i\<close> of its \<open>[E, 2D]\<close> input
  to the one entry of row \<open>i\<close> of its \<open>[E, 1]\<close> output.
\<close>

datatype 'a tensor = Scalar 'a | Vector "'a list"

record ('x, 'a) gnn =
  conv1 :: "'x \<Rightarrow> edge list \<Rightarrow> 'a list list"
  relu_dropout :: "'a list list \<Rightarrow> 'a list list"
  conv2 :: "'a list list \<Rightarrow> edge list \<Rightarrow> 'a list list"
  mlp_row :: "nat \<Rightarrow> 'a list \<Rightarrow> 'a"

definition encoder_forward :: "('x, 'a) gnn \<Rightarrow> 'x \<Rightarrow> edge list \<Rightarrow> 'a list list" where
  "encoder_forward m feats edge_idx = conv2 m (relu_dropout m (conv1 m feats edge_idx)) edge_idx"

text \<open>\<^verbatim>\<open>z[idx]\<close> for an index tensor: IndexError on an index out of range.\<close>

definition index_rows :: "'a list \<Rightarrow> nat list \<Rightarrow> error + 'a list" where
  "index_rows z ix = (if list_all (\<lambda>i. i < length z) ix then Inr (map (\<lambda>i. z ! i) ix) else Inl IndexError)"

text \<open>\<^verbatim>\<open>mlp(edge_features)\<close>, of shape \<open>[E, 1]\<close>, and \<^verbatim>\<open>.squeeze()\<close> on that shape.\<close>

definition mlp :: "('x, 'a) gnn \<Rightarrow> 'a list list \<Rightarrow> 'a list list" where
  "mlp m edge_features = map (\<lambda>(i, row). [mlp_row m i row]) (zip [0..<length edge_features] edge_features)"

definition squeeze :: "'a list list \<Rightarrow> 'a tensor" where
  "squeeze out = (if length out = 1 then Scalar (hd (hd out)) else Vector (map hd out))"

definition decoder_forward :: "('x, 'a) gnn \<Rightarrow> 'a list list \<Rightarrow> 'a list list \<Rightarrow> 'a tensor" where
  "decoder_forward m z_src z_dst = squeeze (mlp m (map (\<lambda>(s, d). s @ d) (zip z_src z_dst)))"

definition decode :: "('x, 'a) gnn \<Rightarrow> 'a list list \<Rightarrow> edge list \<Rightarrow> error + 'a tensor" where
  "decode m z edge_label_index =
     (case index_rows z (map fst edge_label_index) of
        Inl e \<Rightarrow> Inl e
      | Inr z_src \<Rightarrow>
          (case index_rows z (map snd edge_label_index) of
             Inl e \<Rightarrow> Inl e
           | Inr z_dst \<Rightarrow> Inr (decoder_forward m z_src z_dst)))"

definition forward :: "('x, 'a) gnn \<Rightarrow> 'x \<Rightarrow> edge list \<Rightarrow> edge list \<Rightarrow> error + 'a tensor" where
  "forward m feats edge_idx edge_label_index = decode m (encoder_forward m feats edge_idx) edge_label_index"

subsection \<open>\<^verbatim>\<open>train_gnn.py\<close>\<close>

text \<open>
  What one epoch yields, \<^verbatim>\<open>train_epoch\<close> and then \<^verbatim>\<open>evaluate\<close> on the validation
  split: the five metrics and the state dictionaries of model and optimizer at that
  moment. The trainer's fields, with the successive contents that \<^verbatim>\<open>torch.save\<close> wrote
  to \<^verbatim>\<open>save_path\<close>.
\<close>

record ('m, 'o) outcome =
  train_loss :: real
  train_auc :: real
  val_loss :: real
  val_auc :: real
  val_ap :: real
  model_state_dict :: 'm
  optimizer_state_dict :: 'o

record ('m, 'o) checkpoint =
  ck_epoch :: nat
  ck_model_state_dict :: 'm
  ck_optimizer_state_dict :: 'o
  ck_val_auc :: real
  ck_val_ap :: real

record ('m, 'o) trainer =
  h_train_loss :: "real list"
  h_train_auc :: "real list"
  h_val_loss :: "real list"
  h_val_auc :: "real list"
  h_val_ap :: "real list"
  best_val_auc :: real
  patience_counter :: nat
  saved :: "('m, 'o) checkpoint list"

definition new_trainer :: "('m, 'o) trainer" where
  "new_trainer =
     \<lparr>h_train_loss = [], h_train_auc = [], h_val_loss = [], h_val_auc = [], h_val_ap = [],
      best_val_auc = 0, patience_counter = 0, saved = []\<rparr>"

text \<open>The body of the epoch loop up to the early-stopping test.\<close>

definition epoch_step :: "('m, 'o) outcome \<Rightarrow> nat \<Rightarrow> ('m, 'o) trainer \<Rightarrow> ('m, 'o) trainer" where
  "epoch_step r epoch t =
     (let t1 = t\<lparr>h_train_loss := h_train_loss t @ [train_loss r],
                 h_train_auc := h_train_auc t @ [train_auc r],
                 h_val_loss := h_val_loss t @ [val_loss r],
                 h_val_auc := h_val_auc t @ [val_auc r],
                 h_val_ap := h_val_ap t @ [val_ap r]\<rparr>
      in if best_val_auc t1 < val_auc r
         then t1\<lparr>best_val_auc := val_auc r, patience_counter := 0,
                 saved := saved t1 @
                   [\<lparr>ck_epoch = epoch, ck_model_state_dict = model_state_dict r,
                     ck_optimizer_state_dict = optimizer_state_dict r,
                     ck_val_auc = val_auc r, ck_val_ap = val_ap r\<rparr>]\<rparr>
         else t1\<lparr>patience_counter := Suc (patience_counter t1)\<rparr>)"

text \<open>\<^verbatim>\<open>for epoch in range(1, epochs + 1)\<close> with its \<^verbatim>\<open>break\<close>, from \<open>epoch\<close> on.\<close>

function train_loop ::
  "(nat \<Rightarrow> ('m, 'o) outcome) \<Rightarrow> int \<Rightarrow> int \<Rightarrow> nat \<Rightarrow> ('m, 'o) trainer \<Rightarrow> ('m, 'o) trainer" where
  "train_loop run patience epochs epoch t =
     (if int epoch \<le> epochs
      then (let t' = epoch_step (run epoch) epoch t
            in if patience \<le> int (patience_counter t') then t'
               else train_loop run patience epochs (Suc epoch) t')
      else t)"
  by pat_completeness auto
termination
  by (relation "measure (\<lambda>(run, patience, epochs, epoch, t). nat (epochs + 1 - int epoch))") auto

declare train_loop.simps [simp del]

definition train ::
  "(nat \<Rightarrow> ('m, 'o) outcome) \<Rightarrow> int \<Rightarrow> int \<Rightarrow> ('m, 'o) trainer \<Rightarrow> ('m, 'o) trainer" where
  "train run patience epochs t = train_loop run patience epochs 1 t"

text \<open>The trainer after the first \<open>k\<close> epochs when nothing stops the loop.\<close>

fun after_epochs :: "(nat \<Rightarrow> ('m, 'o) outcome) \<Rightarrow> ('m, 'o) trainer \<Rightarrow> nat \<Rightarrow> ('m, 'o) trainer" where
  "after_epochs run t 0 = t"
| "after_epochs run t (Suc k) = epoch_step (run (Suc k)) (Suc k) (after_epochs run t k)"

subsection \<open>\<^verbatim>\<open>evaluate_gnn.py\<close>\<close>

text \<open>
  A Python float that may be the NaN of a division of zero by zero. The result
  dictionary of \<^verbatim>\<open>compute_precision_at_k\<close> has the key \<^verbatim>\<open>p@k\<close> at \<open>k\<close>.
\<close>

datatype pyfloat = Num real | NaN

fun precision_loop ::
  "real list \<Rightarrow> nat list \<Rightarrow> int list \<Rightarrow> (int \<Rightarrow> pyfloat option) \<Rightarrow> error + (int \<Rightarrow> pyfloat option)" where
  "precision_loop y_true top_k_indices [] precision_at_k = Inr precision_at_k"
| "precision_loop y_true top_k_indices (k # ks) precision_at_k =
     (if int (length y_true) < k then precision_loop y_true top_k_indices ks precision_at_k
      else (case index_rows y_true (py_take k top_k_indices) of
              Inl e \<Rightarrow> Inl e
            | Inr top_k_labels \<Rightarrow>
                precision_loop y_true top_k_indices ks
                  (precision_at_k(k := Some (if k = 0 then NaN
                                             else Num (sum_list top_k_labels / real_of_int k))))))"

definition compute_precision_at_k ::
  "real list \<Rightarrow> ('p::linorder) list \<Rightarrow> int list \<Rightarrow> error + (int \<Rightarrow> pyfloat option)" where
  "compute_precision_at_k y_true y_pred_probs k_values =
     precision_loop y_true (rev (argsort y_pred_probs)) k_values (\<lambda>_. None)"

subsection \<open>\<^verbatim>\<open>generate_predictions.py\<close>\<close>

text \<open>\<^verbatim>\<open>edge_index[:, labels == 1]\<close>: the mask must be as long as the tensor is wide.\<close>

definition pos_edges :: "'x split_data \<Rightarrow> error + edge list" where
  "pos_edges d =
     (if length (labels d) \<noteq> length (edge_index d) then Inl IndexError else Inr (positives d))"

definition add_undirected :: "edge list \<Rightarrow> edge set \<Rightarrow> edge set" where
  "add_undirected es existing = fold (\<lambda>(src, dst) s. insert (dst, src) (insert (src, dst) s)) es existing"

definition get_existing_edges :: "'x world \<Rightarrow> error + edge set" where
  "get_existing_edges w =
     (case torch_load w ''data/processed/train_data.pt'' of Inl e \<Rightarrow> Inl e | Inr train_data \<Rightarrow>
     (case torch_load w ''data/processed/val_data.pt'' of Inl e \<Rightarrow> Inl e | Inr val_data \<Rightarrow>
     (case torch_load w ''data/processed/test_data.pt'' of Inl e \<Rightarrow> Inl e | Inr test_data \<Rightarrow>
     (case pos_edges train_data of Inl e \<Rightarrow> Inl e | Inr p1 \<Rightarrow>
     (case pos_edges val_data of Inl e \<Rightarrow> Inl e | Inr p2 \<Rightarrow>
     (case pos_edges test_data of Inl e \<Rightarrow> Inl e | Inr p3 \<Rightarrow>
        Inr (add_undirected p3 (add_undirected p2 (add_undirected p1 {})))))))))"

text \<open>
  \<^verbatim>\<open>predict_batch\<close>: the candidates in slices of \<open>batch_size\<close>, each through the model
  over the whole graph's edges; \<^verbatim>\<open>all_probs.extend(probs)\<close> cannot iterate over an array
  with no dimension. \<open>sigmoid\<close> is a parameter.
\<close>

function batch_loop ::
  "('x, 'a) gnn \<Rightarrow> ('a \<Rightarrow> 'p) \<Rightarrow> 'x \<Rightarrow> edge list \<Rightarrow> nat \<Rightarrow> edge list \<Rightarrow> error + 'p list" where
  "batch_loop m sigmoid feats full_edge_index batch_size edge_candidates =
     (if edge_candidates = [] \<or> batch_size = 0 then Inr []
      else (case forward m feats full_edge_index (take batch_size edge_candidates) of
              Inl e \<Rightarrow> Inl e
            | Inr (Scalar v) \<Rightarrow> Inl TypeError
            | Inr (Vector logits) \<Rightarrow>
                (case batch_loop m sigmoid feats full_edge_index batch_size
                        (drop batch_size edge_candidates) of
                   Inl e \<Rightarrow> Inl e
                 | Inr all_probs \<Rightarrow> Inr (map sigmoid logits @ all_probs))))"
  by pat_completeness auto
termination
  by (relation "measure (\<lambda>(m, sigmoid, feats, ei, bs, cands). length cands)") auto

declare batch_loop.simps [simp del]

definition predict_batch ::
  "('x, 'a) gnn \<Rightarrow> ('a \<Rightarrow> 'p) \<Rightarrow> 'x graph_data \<Rightarrow> edge list \<Rightarrow> nat \<Rightarrow> error + 'p list" where
  "predict_batch m sigmoid data edge_candidates batch_size =
     (if batch_size = 0 then Inl ValueError
      else batch_loop m sigmoid (g_x data) (g_edge_index data) batch_size edge_candidates)"

record entity_info =
  entity_id :: string
  entity_text :: string
  entity_type :: string
  frequency :: real
  num_papers :: real

record 'p prediction =
  rank :: nat
  drug :: string
  pred_drug_id :: string
  disease :: string
  pred_disease_id :: string
  pred_confidence :: 'p
  drug_frequency :: real
  disease_frequency :: real
  drug_num_papers :: real
  disease_num_papers :: real

text \<open>
  \<^verbatim>\<open>generate_candidates\<close> in its steps: the enumeration of the pairs not in
  \<^verbatim>\<open>existing_edges\<close>, the ranking \<^verbatim>\<open>np.argsort(probabilities)[::-1][:top_k]\<close>, one row
  per ranked index (a KeyError for an index that \<^verbatim>\<open>entity_map\<close> lacks), and the
  \<^verbatim>\<open>predictions_df['confidence']\<close> of the summary line, a KeyError on a frame without
  rows.
\<close>

definition all_candidates :: "nat list \<Rightarrow> nat list \<Rightarrow> edge set \<Rightarrow> edge list" where
  "all_candidates drug_indices disease_indices existing_edges =
     filter (\<lambda>c. c \<notin> existing_edges) (List.product drug_indices disease_indices)"

definition top_indices :: "('p::linorder) list \<Rightarrow> int \<Rightarrow> nat list" where
  "top_indices probabilities top_k = py_take top_k (rev (argsort probabilities))"

definition make_row ::
  "(nat \<Rightarrow> entity_info option) \<Rightarrow> nat \<Rightarrow> edge \<Rightarrow> 'p \<Rightarrow> error + 'p prediction" where
  "make_row entity_map rnk c prob =
     (case entity_map (fst c) of
        None \<Rightarrow> Inl KeyError
      | Some drug_info \<Rightarrow>
          (case entity_map (snd c) of
             None \<Rightarrow> Inl KeyError
           | Some disease_info \<Rightarrow>
               Inr \<lparr>rank = rnk, drug = entity_text drug_info, pred_drug_id = entity_id drug_info,
                    disease = entity_text disease_info, pred_disease_id = entity_id disease_info,
                    pred_confidence = prob,
                    drug_frequency = frequency drug_info,
                    disease_frequency = frequency disease_info,
                    drug_num_papers = num_papers drug_info,
                    disease_num_papers = num_papers disease_info\<rparr>))"

fun rows_loop ::
  "(nat \<Rightarrow> entity_info option) \<Rightarrow> edge list \<Rightarrow> 'p list \<Rightarrow> nat \<Rightarrow> nat list
     \<Rightarrow> error + 'p prediction list" where
  "rows_loop entity_map cands probs rnk [] = Inr []"
| "rows_loop entity_map cands probs rnk (i # is) =
     (case make_row entity_map rnk (cands ! i) (probs ! i) of
        Inl e \<Rightarrow> Inl e
      | Inr row \<Rightarrow>
          (case rows_loop entity_map cands probs (Suc rnk) is of
             Inl e \<Rightarrow> Inl e
           | Inr rows \<Rightarrow> Inr (row # rows)))"

definition generate_candidates ::
  "('x, 'a) gnn \<Rightarrow> ('a \<Rightarrow> 'p::linorder) \<Rightarrow> 'x graph_data \<Rightarrow> (nat \<Rightarrow> entity_info option)
     \<Rightarrow> nat list \<Rightarrow> nat list \<Rightarrow> edge set \<Rightarrow> int \<Rightarrow> error + 'p prediction list" where
  "generate_candidates m sigmoid data entity_map drug_indices disease_indices existing_edges top_k =
     (let cands = all_candidates drug_indices disease_indices existing_edges in
      (case predict_batch m sigmoid data cands 2000 of
         Inl e \<Rightarrow> Inl e
       | Inr probabilities \<Rightarrow>
           (case rows_loop entity_map cands probabilities 1 (top_indices probabilities top_k) of
              Inl e \<Rightarrow> Inl e
            | Inr predictions \<Rightarrow>
                (if predictions = [] then Inl KeyError else Inr predictions))))"

subsection \<open>Derived notions and example inputs\<close>

text \<open>The value that \<^verbatim>\<open>compute_precision_at_k\<close> stores under \<open>k\<close>.\<close>

definition pk_value :: "real list \<Rightarrow> nat list \<Rightarrow> int \<Rightarrow> pyfloat" where
  "pk_value y ranked k =
     (if k = 0 then NaN else Num (sum_list (map (\<lambda>i. y ! i) (py_take k ranked)) / real_of_int k))"

text \<open>
  A run whose validation AUC is 0.7, 0.8 and then 0.6 for good; the model's state
  dictionary is the epoch number.
\<close>

definition example_run :: "nat \<Rightarrow> (nat, unit) outcome" where
  "example_run k =
     \<lparr>train_loss = 1, train_auc = 1 / 2, val_loss = 1,
      val_auc = (if k = 1 then 7 / 10 else if k = 2 then 8 / 10 else 6 / 10), val_ap = 1 / 2,
      model_state_dict = k, optimizer_state_dict = ()\<rparr>"

text \<open>
  A generator whose raw output at position \<open>k\<close> is \<open>k\<close>, whatever the seed; a graph
  of three drugs (0 to 2) and three diseases (3 to 5) with four known relationships; a
  store without set objects or files; and the three splits that \<^verbatim>\<open>prepare_splits\<close>
  makes of the graph with the default ratios.
\<close>

definition example_mt :: "int \<Rightarrow> nat \<Rightarrow> nat" where
  "example_mt seed pos = pos"

definition example_graph :: "unit graph_data" where
  "example_graph = \<lparr>g_x = (), g_edge_index = [(0, 3), (1, 4), (2, 5), (0, 4)],
                     g_num_drugs = 3, g_num_diseases = 3\<rparr>"

definition empty_world :: "unit world" where
  "empty_world = \<lparr>cells = (\<lambda>_. {}), next_addr = 0, files = (\<lambda>_. None)\<rparr>"

definition example_train :: "unit split_data" where
  "example_train = \<lparr>x = (), edge_index = [(2, 3), (1, 5), (0, 3), (1, 4)],
         labels = [0, 0, 1, 1], num_pos = 2, num_neg = 2\<rparr>"

definition example_val :: "unit split_data" where
  "example_val = \<lparr>x = (), edge_index = [(2, 5), (2, 3)], labels = [1, 0], num_pos = 1, num_neg = 1\<rparr>"

definition example_test :: "unit split_data" where
  "example_test = \<lparr>x = (), edge_index = [(2, 3), (0, 4)], labels = [0, 1], num_pos = 1, num_neg = 1\<rparr>"


text \<open>
  The positive pairs of the split stored under a path, and those of the three split
  files together.
\<close>

definition split_positive_set :: "'x world \<Rightarrow> string \<Rightarrow> edge set" where
  "split_positive_set w path = (case files w path of None \<Rightarrow> {} | Some d \<Rightarrow> set (positives d))"

definition known_positive_set :: "'x world \<Rightarrow> edge set" where
  "known_positive_set w =
     split_positive_set w ''data/processed/train_data.pt'' \<union>
     split_positive_set w ''data/processed/val_data.pt'' \<union>
     split_positive_set w ''data/processed/test_data.pt''"





definition example_model :: "(unit, int) gnn" where
  "example_model = \<lparr>conv1 = (\<lambda>feats ei. [[0], [1], [1], [0], [1], [1]]),
                     relu_dropout = (\<lambda>z. z), conv2 = (\<lambda>z ei. z),
                     mlp_row = (\<lambda>i row. sum_list row)\<rparr>"

definition example_entities :: "nat \<Rightarrow> entity_info option" where
  "example_entities k =
     (if k < 3 then Some \<lparr>entity_id = ''C'', entity_text = ''drug'', entity_type = ''CHEMICAL'',
                          frequency = real k, num_papers = 1\<rparr>
      else if k < 6 then Some \<lparr>entity_id = ''D'', entity_text = ''disease'', entity_type = ''DISEASE'',
                          frequency = real k, num_papers = 1\<rparr>
      else None)"

definition example_store :: "unit world" where
  "example_store =
     \<lparr>cells = (\<lambda>_. {}), next_addr = 0,
      files = (\<lambda>path. if path = ''data/processed/train_data.pt'' then Some example_train
                       else if path = ''data/processed/val_data.pt'' then Some example_val
                       else if path = ''data/processed/test_data.pt'' then Some example_test
                       else None)\<rparr>"

definition example_existing :: "edge set" where
  "example_existing = {(0, 3), (3, 0), (1, 4), (4, 1), (2, 5), (5, 2), (0, 4), (4, 0)}"

definition example_predictions :: "int prediction list" where
  "example_predictions =
     [\<lparr>rank = 1, drug = ''drug'', pred_drug_id = ''C'', disease = ''disease'', pred_disease_id = ''D'',
       pred_confidence = 2, drug_frequency = 2, disease_frequency = 4,
       drug_num_papers = 1, disease_num_papers = 1\<rparr>,
      \<lparr>rank = 2, drug = ''drug'', pred_drug_id = ''C'', disease = ''disease'', pred_disease_id = ''D'',
       pred_confidence = 2, drug_frequency = 1, disease_frequency = 5,
       drug_num_papers = 1, disease_num_papers = 1\<rparr>,
      \<lparr>rank = 3, drug = ''drug'', pred_drug_id = ''C'', disease = ''disease'', pred_disease_id = ''D'',
       pred_confidence = 1, drug_frequency = 2, disease_frequency = 3,
       drug_num_papers = 1, disease_num_papers = 1\<rparr>]"

section \<open>Properties\<close>

subsection \<open>Graph Tensor Builder\<close>

lemma edges_loop_eq:
  "edges_loop n2i es (ei, ea) =
     (ei @ map (\<lambda>e. (the (n2i (drug_id e)), the (n2i (disease_id e))))
            (filter (\<lambda>e. n2i (drug_id e) \<noteq> None \<and> n2i (disease_id e) \<noteq> None) es),
      ea @ map (\<lambda>e. [confidence e, rel_num_papers e])
            (filter (\<lambda>e. n2i (drug_id e) \<noteq> None \<and> n2i (disease_id e) \<noteq> None) es))"
  by (induction es arbitrary: ei ea) (auto split: option.splits)

lemma add_nodes_idx: "idx (add_nodes ty lab rs m) = idx m + length rs"
  by (induction rs arbitrary: m) auto

lemma add_nodes_bound:
  "(\<And>s i. node_to_idx m s = Some i \<Longrightarrow> i < idx m) \<Longrightarrow>
   node_to_idx (add_nodes ty lab rs m) s = Some i \<Longrightarrow> i < idx m + length rs"
proof (induction rs arbitrary: m)
  case Nil
  then show ?case by simp
next
  case (Cons r rs)
  let ?m' = "\<lparr>node_to_idx = (node_to_idx m)(node_id r := Some (idx m)),
        idx_to_node = (idx_to_node m)(idx m := Some (node_id r, node_name r, ty)),
        node_features = node_features m @ [[node_frequency r, node_num_papers r]],
        node_labels = node_labels m @ [lab],
        idx = Suc (idx m)\<rparr>"
  have inv: "\<And>s i. node_to_idx ?m' s = Some i \<Longrightarrow> i < idx ?m'"
    using Cons.prems(1) by (auto simp: less_Suc_eq split: if_splits)
  from Cons.prems(2) have "node_to_idx (add_nodes ty lab rs ?m') s = Some i" by simp
  from Cons.IH[OF inv this] show ?case by simp
qed

lemma create_node_mappings_bound:
  assumes "node_to_idx (create_node_mappings drugs diseases) s = Some i"
  shows "i < length drugs + length diseases"
proof -
  let ?m0 = "\<lparr>node_to_idx = (\<lambda>_. None), idx_to_node = (\<lambda>_. None), node_features = [],
           node_labels = [], idx = 0\<rparr> :: node_maps"
  let ?m1 = "add_nodes ''drug'' 0 drugs ?m0"
  have b1: "\<And>s i. node_to_idx ?m1 s = Some i \<Longrightarrow> i < idx ?m1"
    using add_nodes_bound[of ?m0 "''drug''" 0 drugs] by (simp add: add_nodes_idx)
  from assms have "node_to_idx (add_nodes ''disease'' 1 diseases ?m1) s = Some i"
    by (simp add: create_node_mappings_def)
  from add_nodes_bound[OF b1 this] show ?thesis by (simp add: add_nodes_idx)
qed

text \<open>
  Claim C8, as the code has it: a relationship whose drug id or disease id is not a key
  of the node mapping does not make the export fail. \<^verbatim>\<open>export_edges\<close> returns, for any
  rows, the index pairs and attributes of exactly the rows with both ids known, in their
  order; it prints the number of rows and the number of edges kept and nothing else;
  and every index of the edge list is below the number of nodes.
\<close>

theorem export_edges_drops_unknown_ids:
  "let n2i = node_to_idx (create_node_mappings drugs diseases);
       known = filter (\<lambda>e. n2i (drug_id e) \<noteq> None \<and> n2i (disease_id e) \<noteq> None) edges
   in \<exists>edge_idx edge_attr.
        export_graph_edges drugs diseases edges =
          Inr ((edge_idx, edge_attr), [TotalEdges (length edges), ValidEdges (length edge_idx)]) \<and>
        edge_idx = map (\<lambda>e. (the (n2i (drug_id e)), the (n2i (disease_id e)))) known \<and>
        edge_attr = map (\<lambda>e. [confidence e, rel_num_papers e]) known \<and>
        (\<forall>e \<in> set edge_idx. fst e < length drugs + length diseases \<and>
                             snd e < length drugs + length diseases)"
proof -
  let ?n2i = "node_to_idx (create_node_mappings drugs diseases)"
  let ?known = "filter (\<lambda>e. ?n2i (drug_id e) \<noteq> None \<and> ?n2i (disease_id e) \<noteq> None) edges"
  have "\<And>e. e \<in> set ?known \<Longrightarrow> the (?n2i (drug_id e)) < length drugs + length diseases \<and>
        the (?n2i (disease_id e)) < length drugs + length diseases"
    using create_node_mappings_bound[of drugs diseases] by auto
  then show ?thesis
    by (auto simp: export_graph_edges_def export_edges_def edges_loop_eq Let_def)
qed

text \<open>
  The export of one drug, one disease and two relationships, the first of them with an
  unknown drug id: one edge, both indices below 2.
\<close>

theorem export_edges_drops_unknown_ids_witness:
  "\<exists>edge_idx edge_attr.
     export_graph_edges
       [\<lparr>node_id = ''D1'', node_name = ''aspirin'', node_frequency = 3, node_num_papers = 2\<rparr>]
       [\<lparr>node_id = ''S1'', node_name = ''fever'', node_frequency = 5, node_num_papers = 4\<rparr>]
       [\<lparr>drug_id = ''D9'', disease_id = ''S1'', confidence = 1, rel_num_papers = 1\<rparr>,
        \<lparr>drug_id = ''D1'', disease_id = ''S1'', confidence = 1 / 2, rel_num_papers = 3\<rparr>]
       = Inr ((edge_idx, edge_attr), [TotalEdges 2, ValidEdges 1]) \<and>
     edge_idx = [(0, 1)] \<and> list_all (\<lambda>e. fst e < 2 \<and> snd e < 2) edge_idx"
  using export_edges_drops_unknown_ids
    [of "[\<lparr>node_id = ''D1'', node_name = ''aspirin'', node_frequency = 3, node_num_papers = 2\<rparr>]"
        "[\<lparr>node_id = ''S1'', node_name = ''fever'', node_frequency = 5, node_num_papers = 4\<rparr>]"
        "[\<lparr>drug_id = ''D9'', disease_id = ''S1'', confidence = 1, rel_num_papers = 1\<rparr>,
          \<lparr>drug_id = ''D1'', disease_id = ''S1'', confidence = 1 / 2, rel_num_papers = 3\<rparr>]"]
  by (simp add: create_node_mappings_def Let_def)

text \<open>
  Claim C8 as stated fails: with a relationship that names the unknown drug
  \<open>D9\<close>, the export does not end in an error. It returns the one remaining edge, and
  the printed lines are the two counts.
\<close>

theorem export_edges_unknown_id_counterexample:
  "export_graph_edges
     [\<lparr>node_id = ''D1'', node_name = ''aspirin'', node_frequency = 3, node_num_papers = 2\<rparr>]
     [\<lparr>node_id = ''S1'', node_name = ''fever'', node_frequency = 5, node_num_papers = 4\<rparr>]
     [\<lparr>drug_id = ''D9'', disease_id = ''S1'', confidence = 1, rel_num_papers = 1\<rparr>,
      \<lparr>drug_id = ''D1'', disease_id = ''S1'', confidence = 1 / 2, rel_num_papers = 3\<rparr>]
   = Inr (([(0, 1)], [[1 / 2, 3]]), [TotalEdges 2, ValidEdges 1])"
  by (simp add: export_graph_edges_def export_edges_def create_node_mappings_def)

subsection \<open>Link Predictor Model\<close>

lemma forward_vector:
  assumes "length qs \<noteq> 1"
    and "list_all (\<lambda>q. fst q < length (encoder_forward m feats structure) \<and>
                       snd q < length (encoder_forward m feats structure)) qs"
  shows "\<exists>logits. forward m feats structure qs = Inr (Vector logits) \<and> length logits = length qs"
  using assms
  by (auto simp: forward_def decode_def index_rows_def decoder_forward_def mlp_def squeeze_def
      Let_def list_all_iff)

text \<open>
  Claim C9 at a single query edge: whatever the model, the features and the structure,
  the forward pass on one query edge \<open>q\<close> does not return a vector of length one. With
  both indices in range it returns a tensor without dimension, the effect of
  \<^verbatim>\<open>.squeeze()\<close> on the \<open>[1, 1]\<close> output of the decoder's network.
\<close>

theorem forward_single_edge_is_scalar:
  "forward m feats structure [q] =
     (let z = encoder_forward m feats structure
      in if fst q < length z \<and> snd q < length z
         then Inr (Scalar (mlp_row m 0 (z ! fst q @ z ! snd q)))
         else Inl IndexError)"
  by (simp add: forward_def decode_def index_rows_def decoder_forward_def mlp_def squeeze_def Let_def)

subsection \<open>Sorting by \<^verbatim>\<open>argsort\<close>\<close>

lemma set_argsort: "set (argsort v) = {0..<length v}"
  by (simp add: argsort_def)

lemma length_argsort: "length (argsort v) = length v"
  by (simp add: argsort_def)

lemma sorted_argsort: "sorted (map (\<lambda>i. v ! i) (argsort v))"
  by (simp add: argsort_def)

lemma argsort_last_max:
  assumes "v \<noteq> []" and "j < length v"
  shows "last (argsort v) < length v \<and> v ! j \<le> v ! last (argsort v)"
proof -
  let ?a = "argsort v"
  have ne: "?a \<noteq> []" using assms(1) length_argsort[of v] by auto
  have "last ?a \<in> set ?a" using ne by simp
  then have l: "last ?a < length v" by (simp add: set_argsort)
  have "j \<in> set ?a" using assms(2) by (simp add: set_argsort)
  then obtain p where p: "p < length ?a" "?a ! p = j" by (auto simp: in_set_conv_nth)
  have "p \<le> length ?a - 1" using p(1) by simp
  with sorted_argsort[of v] have "map (\<lambda>i. v ! i) ?a ! p \<le> map (\<lambda>i. v ! i) ?a ! (length ?a - 1)"
    using ne by (intro sorted_nth_mono) auto
  then have "v ! j \<le> v ! (?a ! (length ?a - 1))" using p ne by simp
  then show ?thesis using l ne by (simp add: last_conv_nth)
qed

subsection \<open>Evaluator\<close>

lemma list_all_py_take: "list_all P xs \<Longrightarrow> list_all P (py_take k xs)"
  by (auto simp: py_take_def list_all_iff dest: in_set_takeD)

lemma precision_loop_eq:
  assumes "list_all (\<lambda>i. i < length y) ranked"
  shows "precision_loop y ranked ks acc =
     Inr (\<lambda>k. if k \<in> set ks \<and> k \<le> int (length y) then Some (pk_value y ranked k) else acc k)"
  using assms
proof (induction ks arbitrary: acc)
  case Nil
  then show ?case by simp
next
  case (Cons k ks)
  show ?case
  proof (cases "int (length y) < k")
    case True
    then show ?thesis using Cons by (auto simp: fun_eq_iff)
  next
    case False
    have "index_rows y (py_take k ranked) = Inr (map (\<lambda>i. y ! i) (py_take k ranked))"
      using list_all_py_take[OF Cons.prems] by (simp add: index_rows_def)
    then show ?thesis using False Cons by (auto simp: pk_value_def fun_eq_iff)
  qed
qed

text \<open>
  Claim C6. On labels and probabilities of one length, as \<^verbatim>\<open>evaluate\<close> passes them,
  \<^verbatim>\<open>compute_precision_at_k\<close> returns a dictionary and raises nothing; the dictionary has
  no entry for any \<open>k\<close> above the number of test samples; and when 1 is among the
  requested values and there is a sample, the entry for 1 is 1.0 if and only if the label
  is 1 at the first index of the descending order, an index whose probability no other
  exceeds.
\<close>

theorem precision_at_k_boundary:
  assumes "length y_true = length y_pred_probs"
  shows "\<exists>m. compute_precision_at_k y_true y_pred_probs k_values = Inr m \<and>
     (\<forall>k. int (length y_true) < k \<longrightarrow> m k = None) \<and>
     (1 \<in> set k_values \<and> y_true \<noteq> [] \<longrightarrow>
        (let best = hd (rev (argsort y_pred_probs))
         in best < length y_true \<and>
            (\<forall>j < length y_pred_probs. y_pred_probs ! j \<le> y_pred_probs ! best) \<and>
            (m 1 = Some (Num 1) \<longleftrightarrow> y_true ! best = 1)))"
proof -
  let ?ranked = "rev (argsort y_pred_probs)"
  have all: "list_all (\<lambda>i. i < length y_true) ?ranked"
    using assms by (simp add: list_all_iff set_argsort)
  note eq = precision_loop_eq[OF all, of k_values "\<lambda>_. None"]
  let ?m = "\<lambda>k. if k \<in> set k_values \<and> k \<le> int (length y_true)
               then Some (pk_value y_true ?ranked k) else None"
  have run: "compute_precision_at_k y_true y_pred_probs k_values = Inr ?m"
    unfolding compute_precision_at_k_def eq ..
  have skip: "\<forall>k. int (length y_true) < k \<longrightarrow> ?m k = None" by simp
  have first: "1 \<in> set k_values \<and> y_true \<noteq> [] \<longrightarrow>
        (let best = hd ?ranked
         in best < length y_true \<and>
            (\<forall>j < length y_pred_probs. y_pred_probs ! j \<le> y_pred_probs ! best) \<and>
            (?m 1 = Some (Num 1) \<longleftrightarrow> y_true ! best = 1))"
  proof
    assume a: "1 \<in> set k_values \<and> y_true \<noteq> []"
    then have ne: "y_pred_probs \<noteq> []" using assms by auto
    then have ane: "argsort y_pred_probs \<noteq> []" using length_argsort[of y_pred_probs] by auto
    then have hd: "hd ?ranked = last (argsort y_pred_probs)" by (simp add: hd_rev)
    have one: "py_take 1 ?ranked = [hd ?ranked]"
      using ane by (simp add: py_take_def take_Suc)
    have b: "hd ?ranked < length y_true"
      using argsort_last_max[OF ne, of 0] ne assms hd by simp
    have c: "\<forall>j < length y_pred_probs. y_pred_probs ! j \<le> y_pred_probs ! hd ?ranked"
      using argsort_last_max[OF ne] hd by simp
    have len: "(1::int) \<le> int (length y_true)" using a by (cases y_true) auto
    have "?m 1 = Some (Num (y_true ! hd ?ranked))"
      using a len one by (simp add: pk_value_def)
    then have d: "?m 1 = Some (Num 1) \<longleftrightarrow> y_true ! hd ?ranked = 1" by simp
    from b c d show "let best = hd ?ranked
         in best < length y_true \<and>
            (\<forall>j < length y_pred_probs. y_pred_probs ! j \<le> y_pred_probs ! best) \<and>
            (?m 1 = Some (Num 1) \<longleftrightarrow> y_true ! best = 1)"
      unfolding Let_def by blast
  qed
  from run skip first show ?thesis by blast
qed

text \<open>
  Three test samples with probabilities 0.2, 0.9 and 0.5 and the requested values 1, 2
  and 10: no entry for 10, and the entry for 1 is 1.0, the second sample being a
  positive.
\<close>

theorem precision_at_k_boundary_witness:
  "\<exists>m. compute_precision_at_k [0, 1, 1] [1 / 5, 9 / 10, 1 / 2 :: real] [1, 2, 10] = Inr m \<and>
       m 10 = None \<and> m 1 = Some (Num 1)"
proof -
  have len: "length [0, 1, 1 :: real] = length [1 / 5, 9 / 10, 1 / 2 :: real]" by simp
  have best: "hd (rev (argsort [1 / 5, 9 / 10, 1 / 2 :: real])) = 1"
    by (simp add: argsort_def upt_rec)
  from precision_at_k_boundary[OF len, of "[1, 2, 10]"] show ?thesis
    unfolding best Let_def by auto
qed

subsection \<open>Trainer\<close>

lemma epoch_step_improved:
  "best_val_auc t < val_auc r \<Longrightarrow>
     saved (epoch_step r e t) = saved t @
        [\<lparr>ck_epoch = e, ck_model_state_dict = model_state_dict r,
          ck_optimizer_state_dict = optimizer_state_dict r,
          ck_val_auc = val_auc r, ck_val_ap = val_ap r\<rparr>] \<and>
     patience_counter (epoch_step r e t) = 0 \<and>
     best_val_auc (epoch_step r e t) = val_auc r"
  by (simp add: epoch_step_def Let_def)

lemma epoch_step_not_improved:
  "\<not> best_val_auc t < val_auc r \<Longrightarrow>
     saved (epoch_step r e t) = saved t \<and>
     patience_counter (epoch_step r e t) = Suc (patience_counter t) \<and>
     best_val_auc (epoch_step r e t) = best_val_auc t"
  by (simp add: epoch_step_def Let_def)

lemma epoch_step_best: "best_val_auc (epoch_step r e t) = max (best_val_auc t) (val_auc r)"
  by (simp add: epoch_step_def Let_def max_def)

lemma after_epochs_best:
  "best_val_auc (after_epochs run t n) =
     Max (insert (best_val_auc t) ((\<lambda>k. val_auc (run k)) ` {1..n}))"
proof (induction n)
  case 0
  then show ?case by simp
next
  case (Suc n)
  have "{1..Suc n} = insert (Suc n) {1..n}" by auto
  then have "insert (best_val_auc t) ((\<lambda>k. val_auc (run k)) ` {1..Suc n}) =
        insert (val_auc (run (Suc n))) (insert (best_val_auc t) ((\<lambda>k. val_auc (run k)) ` {1..n}))"
    by auto
  then show ?case using Suc by (simp add: epoch_step_best max.commute)
qed

text \<open>
  The loop entered at epoch \<open>j + 1\<close> in the state that \<open>j\<close> epochs have built ends in
  the state after some \<open>n\<close> epochs: the first \<open>n > j\<close> at which the counter has reached
  the patience, or the last epoch.
\<close>

lemma train_loop_stops:
  "\<exists>n. train_loop run patience epochs (Suc j) (after_epochs run t j) = after_epochs run t n \<and>
       j \<le> n \<and> int n \<le> max (int j) epochs \<and>
       (\<forall>k. j < k \<and> k < n \<longrightarrow> int (patience_counter (after_epochs run t k)) < patience) \<and>
       (int n < epochs \<longrightarrow> j < n \<and> patience \<le> int (patience_counter (after_epochs run t n)))"
proof (induction "nat (epochs - int j)" arbitrary: j)
  case 0
  then have "\<not> int (Suc j) \<le> epochs" by simp
  then have "train_loop run patience epochs (Suc j) (after_epochs run t j) = after_epochs run t j"
    by (simp add: train_loop.simps)
  with 0 show ?case by (intro exI[of _ j]) auto
next
  case (Suc d)
  then have le: "int (Suc j) \<le> epochs" by simp
  let ?t' = "after_epochs run t (Suc j)"
  show ?case
  proof (cases "patience \<le> int (patience_counter ?t')")
    case True
    then have "train_loop run patience epochs (Suc j) (after_epochs run t j) = ?t'"
      using le by (simp add: train_loop.simps[of run patience epochs "Suc j"] Let_def)
    with True le show ?thesis by (intro exI[of _ "Suc j"]) (auto simp: less_Suc_eq)
  next
    case False
    then have unf: "train_loop run patience epochs (Suc j) (after_epochs run t j) =
        train_loop run patience epochs (Suc (Suc j)) ?t'"
      using le by (simp add: train_loop.simps[of run patience epochs "Suc j"] Let_def)
    from Suc have "d = nat (epochs - int (Suc j))" by simp
    from Suc.hyps(1)[OF this] obtain n where n:
      "train_loop run patience epochs (Suc (Suc j)) ?t' = after_epochs run t n"
      "Suc j \<le> n" "int n \<le> max (int (Suc j)) epochs"
      "\<forall>k. Suc j < k \<and> k < n \<longrightarrow> int (patience_counter (after_epochs run t k)) < patience"
      "int n < epochs \<longrightarrow> Suc j < n \<and> patience \<le> int (patience_counter (after_epochs run t n))"
      by blast
    have "\<forall>k. j < k \<and> k < n \<longrightarrow> int (patience_counter (after_epochs run t k)) < patience"
    proof (intro allI impI)
      fix k assume k: "j < k \<and> k < n"
      show "int (patience_counter (after_epochs run t k)) < patience"
      proof (cases "k = Suc j")
        case True
        with False show ?thesis by simp
      next
        case False
        with k n(4) show ?thesis by auto
      qed
    qed
    with n unf le show ?thesis by (intro exI[of _ n]) auto
  qed
qed

text \<open>
  Claim C5. One pass of the loop body writes a checkpoint (epoch, both state
  dictionaries, validation AUC and AP) and sets the patience counter to zero exactly
  when the validation AUC exceeds the best one so far, and otherwise writes nothing and
  adds one to the counter. The loop runs \<open>n\<close> epochs, at most \<open>epochs\<close>; at no earlier
  epoch had the counter reached the patience; if \<open>n\<close> is below \<open>epochs\<close> the counter has
  reached the patience at epoch \<open>n\<close>; and the best validation AUC it reports is the
  greatest seen, the starting value included.
\<close>

theorem trainer_checkpoint_and_early_stopping:
  "(best_val_auc t < val_auc r \<longrightarrow>
      saved (epoch_step r e t) = saved t @
        [\<lparr>ck_epoch = e, ck_model_state_dict = model_state_dict r,
          ck_optimizer_state_dict = optimizer_state_dict r,
          ck_val_auc = val_auc r, ck_val_ap = val_ap r\<rparr>] \<and>
      patience_counter (epoch_step r e t) = 0) \<and>
   (\<not> best_val_auc t < val_auc r \<longrightarrow>
      saved (epoch_step r e t) = saved t \<and>
      patience_counter (epoch_step r e t) = Suc (patience_counter t)) \<and>
   (\<exists>n. train run patience epochs t = after_epochs run t n \<and>
        int n \<le> max 0 epochs \<and>
        (\<forall>k. 0 < k \<and> k < n \<longrightarrow> int (patience_counter (after_epochs run t k)) < patience) \<and>
        (int n < epochs \<longrightarrow> 0 < n \<and> patience \<le> int (patience_counter (after_epochs run t n))) \<and>
        best_val_auc (train run patience epochs t) =
          Max (insert (best_val_auc t) ((\<lambda>k. val_auc (run k)) ` {1..n})))"
proof -
  from train_loop_stops[of run patience epochs 0 t] obtain n where n:
    "train run patience epochs t = after_epochs run t n" "int n \<le> max 0 epochs"
    "\<forall>k. 0 < k \<and> k < n \<longrightarrow> int (patience_counter (after_epochs run t k)) < patience"
    "int n < epochs \<longrightarrow> 0 < n \<and> patience \<le> int (patience_counter (after_epochs run t n))"
    by (auto simp: train_def)
  have "best_val_auc (train run patience epochs t) =
          Max (insert (best_val_auc t) ((\<lambda>k. val_auc (run k)) ` {1..n}))"
    unfolding n(1) by (rule after_epochs_best)
  with n have "\<exists>n. train run patience epochs t = after_epochs run t n \<and>
        int n \<le> max 0 epochs \<and>
        (\<forall>k. 0 < k \<and> k < n \<longrightarrow> int (patience_counter (after_epochs run t k)) < patience) \<and>
        (int n < epochs \<longrightarrow> 0 < n \<and> patience \<le> int (patience_counter (after_epochs run t n))) \<and>
        best_val_auc (train run patience epochs t) =
          Max (insert (best_val_auc t) ((\<lambda>k. val_auc (run k)) ` {1..n}))"
    by blast
  then show ?thesis
    using epoch_step_improved[of t r e] epoch_step_not_improved[of t r e] by blast
qed

lemma example_run_counters:
  "patience_counter (after_epochs example_run new_trainer 1) = 0"
  "patience_counter (after_epochs example_run new_trainer 2) = 0"
  "patience_counter (after_epochs example_run new_trainer 3) = 1"
  "patience_counter (after_epochs example_run new_trainer 4) = 2"
  by (simp_all add: eval_nat_numeral epoch_step_def example_run_def new_trainer_def Let_def)

text \<open>
  The example run with patience 2 and at most 10 epochs: the first epoch writes a
  checkpoint, the third does not and counts one, and the loop ends after epoch 4 with
  the best validation AUC 0.8.
\<close>

theorem trainer_checkpoint_and_early_stopping_witness:
  "saved (epoch_step (example_run 1) 1 new_trainer) =
     [\<lparr>ck_epoch = 1, ck_model_state_dict = 1, ck_optimizer_state_dict = (),
       ck_val_auc = 7 / 10, ck_val_ap = 1 / 2\<rparr>] \<and>
   patience_counter (epoch_step (example_run 1) 1 new_trainer) = 0 \<and>
   saved (epoch_step (example_run 3) 3 (after_epochs example_run new_trainer 2)) =
     saved (after_epochs example_run new_trainer 2) \<and>
   patience_counter (epoch_step (example_run 3) 3 (after_epochs example_run new_trainer 2)) = 1 \<and>
   train example_run 2 10 new_trainer = after_epochs example_run new_trainer 4 \<and>
   best_val_auc (train example_run 2 10 new_trainer) = 8 / 10"
proof -
  have imp: "best_val_auc (new_trainer :: (nat, unit) trainer) < val_auc (example_run 1)"
    by (simp add: new_trainer_def example_run_def)
  have nimp: "\<not> best_val_auc (after_epochs example_run new_trainer 2) < val_auc (example_run 3)"
    by (simp add: eval_nat_numeral epoch_step_def example_run_def new_trainer_def Let_def)
  have c2: "patience_counter (after_epochs example_run new_trainer 2) = 0"
    by (rule example_run_counters)
  note a = trainer_checkpoint_and_early_stopping[of new_trainer "example_run 1" 1 example_run 2 10]
  note b = trainer_checkpoint_and_early_stopping
             [of "after_epochs example_run new_trainer 2" "example_run 3" 3 example_run 2 10]
  from a obtain n where n:
    "train example_run 2 10 new_trainer = after_epochs example_run new_trainer n"
    "int n \<le> max 0 10"
    "\<forall>k. 0 < k \<and> k < n \<longrightarrow> int (patience_counter (after_epochs example_run new_trainer k)) < 2"
    "int n < 10 \<longrightarrow> 0 < n \<and> 2 \<le> int (patience_counter (after_epochs example_run new_trainer n))"
    "best_val_auc (train example_run 2 10 new_trainer) =
       Max (insert (best_val_auc (new_trainer :: (nat, unit) trainer)) ((\<lambda>k. val_auc (example_run k)) ` {1..n}))"
    by blast
  have le4: "n \<le> 4"
  proof (rule ccontr)
    assume "\<not> n \<le> 4"
    then have "int (patience_counter (after_epochs example_run new_trainer 4)) < 2"
      using n(3) by simp
    then show False by (simp add: example_run_counters)
  qed
  then have "0 < n \<and> 2 \<le> int (patience_counter (after_epochs example_run new_trainer n))"
    using n(4) by simp
  moreover have "n = 0 \<or> n = 1 \<or> n = 2 \<or> n = 3 \<or> n = 4" using le4 by arith
  moreover have "\<not> 2 \<le> int (patience_counter (after_epochs example_run new_trainer 1))"
    "\<not> 2 \<le> int (patience_counter (after_epochs example_run new_trainer 2))"
    "\<not> 2 \<le> int (patience_counter (after_epochs example_run new_trainer 3))"
    unfolding example_run_counters by simp_all
  ultimately have n4: "n = 4" by blast
  have "{1..4::nat} = {1, 2, 3, 4}" by auto
  then have best: "best_val_auc (train example_run 2 10 new_trainer) = 8 / 10"
    using n(5) unfolding n4 by (simp add: new_trainer_def example_run_def)
  from a imp have s1: "saved (epoch_step (example_run 1) 1 new_trainer) =
     [\<lparr>ck_epoch = 1, ck_model_state_dict = 1, ck_optimizer_state_dict = (),
       ck_val_auc = 7 / 10, ck_val_ap = 1 / 2\<rparr>] \<and>
   patience_counter (epoch_step (example_run 1) 1 new_trainer) = 0"
    by (simp add: new_trainer_def example_run_def)
  from b nimp c2 have s2: "saved (epoch_step (example_run 3) 3 (after_epochs example_run new_trainer 2)) =
     saved (after_epochs example_run new_trainer 2) \<and>
   patience_counter (epoch_step (example_run 3) 3 (after_epochs example_run new_trainer 2)) = 1"
    by simp
  from s1 s2 n(1) n4 best show ?thesis by simp
qed

subsection \<open>Split Generator\<close>

lemma choice_Inr_mem: "choice st xs = Inr (v, st') \<Longrightarrow> v \<in> set xs"
  by (auto simp: choice_def randbelow_def split: if_splits)

lemma choice_nonempty: "xs \<noteq> [] \<Longrightarrow> \<exists>v st'. choice st xs = Inr (v, st')"
  by (auto simp: choice_def randbelow_def)

lemma set_add_simps [simp]:
  "cells (set_add w a e) = (cells w)(a := insert e (cells w a))"
  "next_addr (set_add w a e) = next_addr w"
  "files (set_add w a e) = files w"
  by (simp_all add: set_add_def)

text \<open>
  What the sampling loop returns: the pairs it adds are distinct, were not in the set
  object, lie in the drug and disease ranges, and are added to that object and to no
  other; the attempts stay within the budget, and the loop gives up short of the
  requested count only when the budget is spent.
\<close>

lemma neg_loop_result:
  assumes "neg_loop D S n M a st negs w att = Inr (negs', w', att')"
  shows "\<exists>new. negs' = negs @ new \<and> distinct new \<and> set new \<inter> cells w a = {} \<and>
           set new \<subseteq> set D \<times> set S \<and>
           cells w' = (cells w)(a := cells w a \<union> set new) \<and>
           next_addr w' = next_addr w \<and> files w' = files w \<and>
           att \<le> att' \<and> int att' \<le> max (int att) M \<and>
           int (length negs') \<le> max (int (length negs)) n \<and>
           (int (length negs') < n \<longrightarrow> M \<le> int att')"
  using assms
proof (induction D S n M a st negs w att rule: neg_loop.induct)
  case (1 D S n M a st negs w att)
  show ?case
  proof (cases "int (length negs) < n \<and> int att < M")
    case False
    with "1.prems" have "negs' = negs" "w' = w" "att' = att"
      by (simp_all add: neg_loop.simps[of D S n M a st negs w att])
    with False show ?thesis by (intro exI[of _ "[]"]) auto
  next
    case True
    from "1.prems" True obtain d st1 where c1: "choice st D = Inr (d, st1)"
      by (auto simp: neg_loop.simps[of D S n M a st negs w att] split: sum.splits)
    from "1.prems" True c1 obtain s st2 where c2: "choice st1 S = Inr (s, st2)"
      by (auto simp: neg_loop.simps[of D S n M a st negs w att] split: sum.splits)
    have mem: "(d, s) \<in> set D \<times> set S"
      using choice_Inr_mem[OF c1] choice_Inr_mem[OF c2] by simp
    show ?thesis
    proof (cases "(d, s) \<notin> cells w a")
      case fresh: True
      have step: "neg_loop D S n M a st2 (negs @ [(d, s)]) (set_add w a (d, s)) (Suc att)
                    = Inr (negs', w', att')"
        using "1.prems" True c1 c2 fresh
        by (simp add: neg_loop.simps[of D S n M a st negs w att])
      from "1.IH"(1)[OF True c1 refl c2 refl fresh step]
      obtain new where new: "negs' = (negs @ [(d, s)]) @ new" "distinct new"
        "set new \<inter> cells (set_add w a (d, s)) a = {}" "set new \<subseteq> set D \<times> set S"
        "cells w' = (cells (set_add w a (d, s)))(a := cells (set_add w a (d, s)) a \<union> set new)"
        "next_addr w' = next_addr (set_add w a (d, s))" "files w' = files (set_add w a (d, s))"
        "Suc att \<le> att'" "int att' \<le> max (int (Suc att)) M"
        "int (length negs') \<le> max (int (length (negs @ [(d, s)]))) n"
        "int (length negs') < n \<longrightarrow> M \<le> int att'"
        by blast
      show ?thesis
      proof (intro exI[of _ "(d, s) # new"] conjI)
        show "negs' = negs @ (d, s) # new" using new(1) by simp
        show "distinct ((d, s) # new)" using new(2,3) by auto
        show "set ((d, s) # new) \<inter> cells w a = {}" using new(3) fresh by auto
        show "set ((d, s) # new) \<subseteq> set D \<times> set S" using new(4) mem by auto
        show "cells w' = (cells w)(a := cells w a \<union> set ((d, s) # new))"
          using new(5) by (auto simp: fun_eq_iff)
        show "next_addr w' = next_addr w" using new(6) by simp
        show "files w' = files w" using new(7) by simp
        show "att \<le> att'" using new(8) by simp
        show "int att' \<le> max (int att) M" using new(9) True by simp
        show "int (length negs') \<le> max (int (length negs)) n" using new(10) True by simp
        show "int (length negs') < n \<longrightarrow> M \<le> int att'" using new(11) .
      qed
    next
      case dup: False
      have step: "neg_loop D S n M a st2 negs w (Suc att) = Inr (negs', w', att')"
        using "1.prems" True c1 c2 dup
        by (simp add: neg_loop.simps[of D S n M a st negs w att])
      from "1.IH"(2)[OF True c1 refl c2 refl dup step]
      obtain new where new: "negs' = negs @ new" "distinct new"
        "set new \<inter> cells w a = {}" "set new \<subseteq> set D \<times> set S"
        "cells w' = (cells w)(a := cells w a \<union> set new)"
        "next_addr w' = next_addr w" "files w' = files w"
        "Suc att \<le> att'" "int att' \<le> max (int (Suc att)) M"
        "int (length negs') \<le> max (int (length negs)) n"
        "int (length negs') < n \<longrightarrow> M \<le> int att'"
        by blast
      then show ?thesis using True by (intro exI[of _ new]) auto
    qed
  qed
qed

lemma neg_loop_total:
  assumes "D \<noteq> []" "S \<noteq> []"
  shows "\<exists>r. neg_loop D S n M a st negs w att = Inr r"
  using assms
proof (induction D S n M a st negs w att rule: neg_loop.induct)
  case (1 D S n M a st negs w att)
  show ?case
  proof (cases "int (length negs) < n \<and> int att < M")
    case False
    then have "neg_loop D S n M a st negs w att = Inr (negs, w, att)"
      by (subst neg_loop.simps) auto
    then show ?thesis by simp
  next
    case True
    from choice_nonempty[OF "1.prems"(1)] obtain d st1 where c1: "choice st D = Inr (d, st1)"
      by blast
    from choice_nonempty[OF "1.prems"(2)] obtain s st2 where c2: "choice st1 S = Inr (s, st2)"
      by blast
    show ?thesis
    proof (cases "(d, s) \<notin> cells w a")
      case fresh: True
      from "1.IH"(1)[OF True c1 refl c2 refl fresh "1.prems"] show ?thesis
        using True c1 c2 fresh by (simp add: neg_loop.simps[of D S n M a st negs w att])
    next
      case dup: False
      from "1.IH"(2)[OF True c1 refl c2 refl dup "1.prems"] show ?thesis
        using True c1 c2 dup by (simp add: neg_loop.simps[of D S n M a st negs w att])
    qed
  qed
qed


lemma seed_rng_ok: "0 \<le> seed \<Longrightarrow> seed < 2 ^ 32 \<Longrightarrow> seed_rng mt seed = Inr (mt seed, 0)"
  by (simp add: seed_rng_def)

lemma sample_negatives_result:
  assumes "sample_negatives mt nd ndis n w a seed = Inr (negs, w', att)"
  shows "distinct negs \<and> set negs \<inter> cells w a = {} \<and>
         set negs \<subseteq> {0..<nd} \<times> {nd..<nd + ndis} \<and>
         cells w' = (cells w)(a := cells w a \<union> set negs) \<and>
         next_addr w' = next_addr w \<and> files w' = files w \<and>
         int att \<le> max 0 (n * 10) \<and> int (length negs) \<le> max 0 n \<and>
         (int (length negs) < n \<longrightarrow> int att = n * 10)"
proof -
  from assms obtain st where
    "neg_loop [0..<nd] [nd..<nd + ndis] n (n * 10) a st [] w 0 = Inr (negs, w', att)"
    by (auto simp: sample_negatives_def split: sum.splits)
  from neg_loop_result[OF this] show ?thesis by auto
qed

lemma sample_negatives_total:
  assumes "0 \<le> seed" "seed < 2 ^ 32" "0 < nd" "0 < ndis"
  shows "\<exists>r. sample_negatives mt nd ndis n w a seed = Inr r"
  using assms neg_loop_total[of "[0..<nd]" "[nd..<nd + ndis]"]
  by (simp add: sample_negatives_def seed_rng_ok)

lemma generate_negative_samples_result:
  assumes "generate_negative_samples mt nd ndis n w a seed = Inr (negs, w')"
  shows "distinct negs \<and> set negs \<inter> cells w a = {} \<and>
         set negs \<subseteq> {0..<nd} \<times> {nd..<nd + ndis} \<and>
         cells w' = (cells w)(a := cells w a \<union> set negs) \<and>
         next_addr w' = next_addr w \<and> files w' = files w \<and>
         int (length negs) \<le> max 0 n"
proof -
  from assms obtain att where "sample_negatives mt nd ndis n w a seed = Inr (negs, w', att)"
    by (auto simp: generate_negative_samples_def split: sum.splits)
  from sample_negatives_result[OF this] show ?thesis by blast
qed

text \<open>A seeded permutation is a permutation, so shuffling a split keeps its rows.\<close>

lemma swap_mset: "i < length xs \<Longrightarrow> j < length xs \<Longrightarrow> mset (swap xs i j) = mset xs"
  unfolding swap_def by (simp add: mset_swap)

lemma swap_length [simp]: "length (swap xs i j) = length xs"
  by (simp add: swap_def)

lemma shuffle_loop_mset: "i < length xs \<Longrightarrow> mset (fst (shuffle_loop i xs st)) = mset xs"
proof (induction i arbitrary: xs st)
  case 0
  then show ?case by simp
next
  case (Suc i)
  obtain j st' where r: "randbelow st (Suc (Suc i)) = (j, st')" by (cases "randbelow st (Suc (Suc i))")
  then have "j < Suc (Suc i)" by (auto simp: randbelow_def)
  then have j: "j < length xs" using Suc.prems by simp
  have "mset (fst (shuffle_loop i (swap xs (Suc i) j) st')) = mset (swap xs (Suc i) j)"
    using Suc.prems by (intro Suc.IH) simp
  then show ?case using r j Suc.prems by (simp add: swap_mset)
qed

lemma permutation_mset: "mset (fst (permutation st n)) = mset [0..<n]"
proof (cases n)
  case 0
  then show ?thesis by (simp add: permutation_def)
next
  case (Suc k)
  then show ?thesis unfolding permutation_def by (intro shuffle_loop_mset) simp
qed

lemma take_rows_mset:
  "mset perm = mset [0..<length xs] \<Longrightarrow> mset (take_rows xs perm) = mset xs"
proof -
  assume a: "mset perm = mset [0..<length xs]"
  have "mset (take_rows xs perm) = image_mset (\<lambda>i. xs ! i) (mset perm)"
    by (simp add: take_rows_def)
  also have "\<dots> = image_mset (\<lambda>i. xs ! i) (mset [0..<length xs])" using a by simp
  also have "\<dots> = mset (map (\<lambda>i. xs ! i) [0..<length xs])" by simp
  also have "\<dots> = mset xs" by (simp add: map_nth)
  finally show ?thesis .
qed

lemma zip_labels_filter:
  "map fst (filter (\<lambda>p. snd p = (0::real)) (zip (pos @ neg) (make_labels pos neg))) = neg"
  "map fst (filter (\<lambda>p. snd p = (1::real)) (zip (pos @ neg) (make_labels pos neg))) = pos"
proof -
  have z: "zip (pos @ neg) (make_labels pos neg) =
      zip pos (replicate (length pos) 1) @ zip neg (replicate (length neg) 0)"
    by (simp add: make_labels_def)
  have a: "\<And>xs (c::real) d. c \<noteq> d \<Longrightarrow> filter (\<lambda>p. snd p = d) (zip xs (replicate (length xs) c)) = []"
    by (auto simp: filter_empty_conv dest: set_zip_rightD)
  have b: "\<And>xs (c::real). filter (\<lambda>p. snd p = c) (zip xs (replicate (length xs) c)) = zip xs (replicate (length xs) c)"
    by (auto simp: filter_id_conv dest: set_zip_rightD)
  have c: "\<And>xs (c::real). map fst (zip xs (replicate (length xs) c)) = xs"
    by simp
  show "map fst (filter (\<lambda>p. snd p = (0::real)) (zip (pos @ neg) (make_labels pos neg))) = neg"
    unfolding z by (simp add: a b c)
  show "map fst (filter (\<lambda>p. snd p = (1::real)) (zip (pos @ neg) (make_labels pos neg))) = pos"
    unfolding z by (simp add: a b c)
qed

lemma length_make_labels: "length (make_labels pos neg) = length (pos @ neg)"
  by (simp add: make_labels_def)

lemma shuffled_filter_mset:
  assumes "mset perm = mset [0..<length es]" and "length ls = length es"
  shows "mset (map fst (filter P (zip (take_rows es perm) (take_rows ls perm)))) =
         mset (map fst (filter P (zip es ls)))"
proof -
  have "zip (take_rows es perm) (take_rows ls perm) = map (\<lambda>i. (es ! i, ls ! i)) perm"
    unfolding take_rows_def by (induction perm) auto
  then have "mset (map fst (filter P (zip (take_rows es perm) (take_rows ls perm)))) =
        image_mset fst (filter_mset P (image_mset (\<lambda>i. (es ! i, ls ! i)) (mset perm)))"
    by simp
  also have "\<dots> = image_mset fst (filter_mset P (image_mset (\<lambda>i. (es ! i, ls ! i)) (mset [0..<length es])))"
    using assms(1) by simp
  also have "\<dots> = mset (map fst (filter P (map (\<lambda>i. (es ! i, ls ! i)) [0..<length es])))"
    by simp
  also have "map (\<lambda>i. (es ! i, ls ! i)) [0..<length es] = zip es ls"
    using assms(2) by (intro nth_equalityI) auto
  finally show ?thesis .
qed

lemma make_split_negatives:
  assumes "mset perm = mset [0..<length (pos @ neg)]"
  shows "mset (negatives (make_split feats (pos @ neg) (make_labels pos neg) perm a b)) = mset neg"
    and "mset (positives (make_split feats (pos @ neg) (make_labels pos neg) perm a b)) = mset pos"
  using shuffled_filter_mset[OF assms length_make_labels, of "\<lambda>p. snd p = 0"]
        shuffled_filter_mset[OF assms length_make_labels, of "\<lambda>p. snd p = 1"]
  by (simp_all add: negatives_def positives_def make_split_def zip_labels_filter)

lemma assemble_splits_result:
  assumes "assemble_splits mt feats tr v te nr seed train_pos val_pos test_pos train_neg val_neg test_neg w
             = Inr ((train_data, val_data, test_data, st), w')"
  shows "mset (negatives train_data) = mset train_neg \<and> mset (negatives val_data) = mset val_neg \<and>
         mset (negatives test_data) = mset test_neg \<and>
         mset (positives train_data) = mset train_pos \<and> mset (positives val_data) = mset val_pos \<and>
         mset (positives test_data) = mset test_pos \<and>
         cells w' = cells w \<and> next_addr w' = next_addr w \<and>
         files w' = (files w)(''data/processed/train_data.pt'' := Some train_data,
                              ''data/processed/val_data.pt'' := Some val_data,
                              ''data/processed/test_data.pt'' := Some test_data) \<and>
         num_pos train_data = length train_pos \<and> train_neg \<noteq> [] \<and> val_neg \<noteq> [] \<and> test_neg \<noteq> []"
proof -
  from assms obtain st0 where
    e: "vstack train_pos train_neg = Inr (train_pos @ train_neg)" "train_neg \<noteq> []"
       "vstack val_pos val_neg = Inr (val_pos @ val_neg)" "val_neg \<noteq> []"
       "vstack test_pos test_neg = Inr (test_pos @ test_neg)" "test_neg \<noteq> []"
       "seed_rng mt seed = Inr st0"
    by (auto simp: assemble_splits_def vstack_def split: sum.splits if_splits)
  obtain p1 st1 where p1: "permutation st0 (length (train_pos @ train_neg)) = (p1, st1)"
    by (cases "permutation st0 (length (train_pos @ train_neg))")
  obtain p2 st2 where p2: "permutation st1 (length (val_pos @ val_neg)) = (p2, st2)"
    by (cases "permutation st1 (length (val_pos @ val_neg))")
  obtain p3 st3 where p3: "permutation st2 (length (test_pos @ test_neg)) = (p3, st3)"
    by (cases "permutation st2 (length (test_pos @ test_neg))")
  have m1: "mset p1 = mset [0..<length (train_pos @ train_neg)]"
    using permutation_mset[of st0 "length (train_pos @ train_neg)"] p1 by simp
  have m2: "mset p2 = mset [0..<length (val_pos @ val_neg)]"
    using permutation_mset[of st1 "length (val_pos @ val_neg)"] p2 by simp
  have m3: "mset p3 = mset [0..<length (test_pos @ test_neg)]"
    using permutation_mset[of st2 "length (test_pos @ test_neg)"] p3 by simp
  from assms e p1 p2 p3 have
    trd: "train_data = make_split feats (train_pos @ train_neg) (make_labels train_pos train_neg) p1
                  (length train_pos) (length train_neg)" and
    va: "val_data = make_split feats (val_pos @ val_neg) (make_labels val_pos val_neg) p2
                  (length val_pos) (length val_neg)" and
    te: "test_data = make_split feats (test_pos @ test_neg) (make_labels test_pos test_neg) p3
                  (length test_pos) (length test_neg)" and
    w': "w' = torch_save (torch_save (torch_save w ''data/processed/train_data.pt'' train_data)
                ''data/processed/val_data.pt'' val_data) ''data/processed/test_data.pt'' test_data"
    by (auto simp: assemble_splits_def Let_def)
  have n: "num_pos train_data = length train_pos" unfolding trd by (simp add: make_split_def)
  have wf: "cells w' = cells w \<and> next_addr w' = next_addr w \<and>
         files w' = (files w)(''data/processed/train_data.pt'' := Some train_data,
                              ''data/processed/val_data.pt'' := Some val_data,
                              ''data/processed/test_data.pt'' := Some test_data)"
    unfolding w' by (simp add: torch_save_def)
  have a1: "mset (negatives train_data) = mset train_neg" "mset (positives train_data) = mset train_pos"
    unfolding trd by (rule make_split_negatives[OF m1])+
  have a2: "mset (negatives val_data) = mset val_neg" "mset (positives val_data) = mset val_pos"
    unfolding va by (rule make_split_negatives[OF m2])+
  have a3: "mset (negatives test_data) = mset test_neg" "mset (positives test_data) = mset test_pos"
    unfolding te by (rule make_split_negatives[OF m3])+
  from n wf a1 a2 a3 e(2,4,6) show ?thesis by blast
qed

lemma new_set_simps:
  "new_set w s = (a, w0) \<Longrightarrow> a = next_addr w \<and> cells w0 = (cells w)(next_addr w := s) \<and>
     next_addr w0 = Suc (next_addr w) \<and> files w0 = files w"
  by (auto simp: new_set_def)

lemma sample_three_result:
  assumes "sample_three mt nd ndis n1 n2 n3 seed g w = Inr ((neg1, neg2, neg3), w')"
    and "g < next_addr w"
  shows "distinct neg1 \<and> distinct neg2 \<and> distinct neg3 \<and>
         set neg1 \<inter> cells w g = {} \<and> set neg2 \<inter> cells w g = {} \<and> set neg3 \<inter> cells w g = {} \<and>
         cells w' = (cells w)(next_addr w := cells w g \<union> set neg1,
                              Suc (next_addr w) := cells w g \<union> set neg2,
                              Suc (Suc (next_addr w)) := cells w g \<union> set neg3) \<and>
         next_addr w' = Suc (Suc (Suc (next_addr w))) \<and> files w' = files w"
proof -
  let ?a = "next_addr w"
  obtain c1 w1 where k1: "copy_set w g = (c1, w1)" by (cases "copy_set w g")
  then have w1: "c1 = ?a" "cells w1 = (cells w)(?a := cells w g)" "next_addr w1 = Suc ?a" "files w1 = files w"
    using new_set_simps[of w "cells w g" c1 w1] by (simp_all add: copy_set_def)
  from assms(1) k1 obtain w2 where
    g1: "generate_negative_samples mt nd ndis n1 w1 c1 seed = Inr (neg1, w2)"
    by (auto simp: sample_three_def split: sum.splits prod.splits)
  note r1 = generate_negative_samples_result[OF g1]
  have w2: "cells w2 = (cells w)(?a := cells w g \<union> set neg1)" "next_addr w2 = Suc ?a" "files w2 = files w"
    using r1 w1 by (auto simp: fun_eq_iff)
  have gne: "g \<noteq> ?a" "g \<noteq> Suc ?a" "g \<noteq> Suc (Suc ?a)" using assms(2) by auto
  obtain c2 w3 where k2: "copy_set w2 g = (c2, w3)" by (cases "copy_set w2 g")
  then have w3: "c2 = Suc ?a" "cells w3 = (cells w2)(Suc ?a := cells w g)" "next_addr w3 = Suc (Suc ?a)" "files w3 = files w"
    using new_set_simps[of w2 "cells w2 g" c2 w3] w2 gne by (simp_all add: copy_set_def)
  from assms(1) k1 g1 k2 obtain w4 where
    g2: "generate_negative_samples mt nd ndis n2 w3 c2 (seed + 1) = Inr (neg2, w4)"
    by (auto simp: sample_three_def split: sum.splits prod.splits)
  note r2 = generate_negative_samples_result[OF g2]
  have w4: "cells w4 = (cells w2)(Suc ?a := cells w g \<union> set neg2)" "next_addr w4 = Suc (Suc ?a)" "files w4 = files w"
    using r2 w3 by (auto simp: fun_eq_iff)
  obtain c3 w5 where k3: "copy_set w4 g = (c3, w5)" by (cases "copy_set w4 g")
  then have w5: "c3 = Suc (Suc ?a)" "cells w5 = (cells w4)(Suc (Suc ?a) := cells w g)"
      "next_addr w5 = Suc (Suc (Suc ?a))" "files w5 = files w"
    using new_set_simps[of w4 "cells w4 g" c3 w5] w4 w2 gne by (simp_all add: copy_set_def)
  from assms(1) k1 g1 k2 g2 k3 have
    g3: "generate_negative_samples mt nd ndis n3 w5 c3 (seed + 2) = Inr (neg3, w')"
    by (auto simp: sample_three_def split: sum.splits prod.splits)
  note r3 = generate_negative_samples_result[OF g3]
  have w6: "cells w' = (cells w4)(Suc (Suc ?a) := cells w g \<union> set neg3)"
      "next_addr w' = Suc (Suc (Suc ?a))" "files w' = files w"
    using r3 w5 by (auto simp: fun_eq_iff)
  have d1: "set neg1 \<inter> cells w g = {}" using r1 w1 by simp
  have d2: "set neg2 \<inter> cells w g = {}" using r2 w3 by simp
  have d3: "set neg3 \<inter> cells w g = {}" using r3 w5 by simp
  show ?thesis using r1 r2 r3 d1 d2 d3 w6 w4 w2 by (auto simp: fun_eq_iff)
qed

lemma permutation_length: "length (fst (permutation st n)) = n"
  using permutation_mset[of st n] by (metis length_upt mset_eq_length minus_nat.diff_0)

lemma validate_shuffle_split_Inr:
  "validate_shuffle_split n r = Inr (nt, ne) \<Longrightarrow> 0 < nt \<and> nt \<le> n \<and> ne = n - nt"
proof -
  assume a: "validate_shuffle_split n r = Inr (nt, ne)"
  then have r: "0 < r" "r < 1" and nt: "nt = nat \<lfloor>r * real n\<rfloor>" "nt \<noteq> 0" and ne: "ne = n - nt"
    by (auto simp: validate_shuffle_split_def Let_def split: if_splits)
  have "r * real n \<le> real n" using r by (simp add: mult_left_le_one_le)
  then have "\<lfloor>r * real n\<rfloor> \<le> int n" by (simp add: floor_le_iff)
  then have "nt \<le> n" unfolding nt by simp
  with nt ne show ?thesis by simp
qed

lemma train_test_split_mset:
  assumes "train_test_split mt arr r seed = Inr (tr, te)"
  shows "mset tr + mset te = mset arr"
proof -
  from assms obtain st nt ne where
    v: "validate_shuffle_split (length arr) r = Inr (nt, ne)" and
    tr: "tr = take_rows arr (take nt (drop ne (fst (permutation st (length arr)))))" and
    te: "te = take_rows arr (take ne (fst (permutation st (length arr))))"
    by (auto simp: train_test_split_def Let_def split: sum.splits)
  let ?p = "fst (permutation st (length arr))"
  from validate_shuffle_split_Inr[OF v] have n: "nt \<le> length arr" "ne = length arr - nt" by auto
  have "length (drop ne ?p) = nt" using n by (simp add: permutation_length)
  then have "take nt (drop ne ?p) = drop ne ?p" by simp
  then have "tr = take_rows arr (drop ne ?p)" unfolding tr by simp
  then have "mset tr + mset te = mset (take_rows arr (take ne ?p) @ take_rows arr (drop ne ?p))"
    unfolding te by simp
  also have "take_rows arr (take ne ?p) @ take_rows arr (drop ne ?p) =
             take_rows arr (take ne ?p @ drop ne ?p)"
    unfolding take_rows_def by (simp only: map_append)
  finally have "mset tr + mset te = mset (take_rows arr (take ne ?p @ drop ne ?p))" .
  also have "\<dots> = mset arr"
    by (simp add: take_rows_mset permutation_mset)
  finally show ?thesis .
qed

lemma split_positives_mset:
  assumes "split_positives mt pe tr v te seed = Inr (train_pos, val_pos, test_pos)"
  shows "mset train_pos + mset val_pos + mset test_pos = mset pe"
proof -
  from assms obtain temp where
    a: "train_test_split mt pe tr seed = Inr (train_pos, temp)" and
    b: "train_test_split mt temp (v / (v + te)) seed = Inr (val_pos, test_pos)"
    by (auto simp: split_positives_def split: sum.splits if_splits)
  from train_test_split_mset[OF a] train_test_split_mset[OF b] show ?thesis
    by (simp add: add.assoc)
qed

text \<open>
  The run of \<^verbatim>\<open>prepare_splits\<close> as a whole: the three splits partition the positive
  edges, the negatives of each are distinct and not positive, the set object made first
  holds the positive edges at the end, and each copy holds them with its negatives.
\<close>

lemma prepare_splits_result:
  assumes "prepare_splits mt data tr v te nr seed w = Inr ((train_data, val_data, test_data, st), w')"
  shows "mset (positives train_data) + mset (positives val_data) + mset (positives test_data)
           = mset (g_edge_index data) \<and>
         distinct (negatives train_data) \<and> distinct (negatives val_data) \<and>
         distinct (negatives test_data) \<and>
         set (negatives train_data) \<inter> set (g_edge_index data) = {} \<and>
         set (negatives val_data) \<inter> set (g_edge_index data) = {} \<and>
         set (negatives test_data) \<inter> set (g_edge_index data) = {} \<and>
         cells w' = (cells w)(next_addr w := set (g_edge_index data),
                     Suc (next_addr w) := set (g_edge_index data) \<union> set (negatives train_data),
                     Suc (Suc (next_addr w)) := set (g_edge_index data) \<union> set (negatives val_data),
                     Suc (Suc (Suc (next_addr w))) := set (g_edge_index data) \<union> set (negatives test_data)) \<and>
         files w' = (files w)(''data/processed/train_data.pt'' := Some train_data,
                              ''data/processed/val_data.pt'' := Some val_data,
                              ''data/processed/test_data.pt'' := Some test_data) \<and>
         num_pos train_data = length (positives train_data)"
proof -
  let ?G = "set (g_edge_index data)"
  let ?a = "next_addr w"
  obtain g w0 where k0: "new_set w ?G = (g, w0)" by (cases "new_set w ?G")
  from new_set_simps[OF k0] have w0: "g = ?a" "cells w0 = (cells w)(?a := ?G)"
    "next_addr w0 = Suc ?a" "files w0 = files w" by simp_all
  from assms k0 obtain train_pos val_pos test_pos where
    sp: "split_positives mt (g_edge_index data) tr v te seed = Inr (train_pos, val_pos, test_pos)"
    by (auto simp: prepare_splits_def Let_def split: sum.splits prod.splits)
  from assms k0 sp obtain train_neg val_neg test_neg w6 where
    s3: "sample_three mt (g_num_drugs data) (g_num_diseases data)
              (py_int (real (length train_pos) * nr))
              (py_int (real (length val_pos) * nr))
              (py_int (real (length test_pos) * nr)) seed g w0
           = Inr ((train_neg, val_neg, test_neg), w6)"
    by (auto simp: prepare_splits_def Let_def split: sum.splits prod.splits)
  from assms k0 sp s3 have
    as: "assemble_splits mt (g_x data) tr v te nr seed train_pos val_pos test_pos
           train_neg val_neg test_neg w6 = Inr ((train_data, val_data, test_data, st), w')"
    by (auto simp: prepare_splits_def Let_def split: sum.splits prod.splits)
  have "g < next_addr w0" using w0 by simp
  note r3 = sample_three_result[OF s3 this]
  note ra = assemble_splits_result[OF as]
  have gG: "cells w0 g = ?G" using w0 by simp
  have st: "set (negatives train_data) = set train_neg" "set (negatives val_data) = set val_neg"
      "set (negatives test_data) = set test_neg"
    using ra by (auto dest: mset_eq_setD)
  have di: "distinct (negatives train_data)" "distinct (negatives val_data)"
      "distinct (negatives test_data)"
    using ra r3 by (auto dest: mset_eq_imp_distinct_iff)
  have ps: "mset (positives train_data) + mset (positives val_data) + mset (positives test_data)
           = mset (g_edge_index data)"
    using ra split_positives_mset[OF sp] by simp
  have ce: "cells w' = (cells w)(?a := ?G, Suc ?a := ?G \<union> set (negatives train_data),
                     Suc (Suc ?a) := ?G \<union> set (negatives val_data),
                     Suc (Suc (Suc ?a)) := ?G \<union> set (negatives test_data))"
    using ra r3 w0 gG st by (auto simp: fun_eq_iff)
  have fi: "files w' = (files w)(''data/processed/train_data.pt'' := Some train_data,
                              ''data/processed/val_data.pt'' := Some val_data,
                              ''data/processed/test_data.pt'' := Some test_data)"
    using ra r3 w0 by simp
  have np: "num_pos train_data = length (positives train_data)"
    using ra by (metis mset_eq_length)
  have dj: "set (negatives train_data) \<inter> ?G = {}" "set (negatives val_data) \<inter> ?G = {}"
      "set (negatives test_data) \<inter> ?G = {}"
    using r3 gG st by simp_all
  from ps di dj ce fi np show ?thesis by blast
qed

text \<open>The example graph under the example generator, by evaluation.\<close>

lemma example_prepare:
  "map_sum id fst (prepare_splits example_mt example_graph (7 / 10) (3 / 20) (3 / 20) 1 42 empty_world)
  = Inr (example_train, example_val, example_test,
      \<lparr>stats_train = \<lparr>total = 4, positive = 2, negative = 2, pos_ratio = 1 / 2\<rparr>,
       stats_val = \<lparr>total = 2, positive = 1, negative = 1, pos_ratio = 1 / 2\<rparr>,
       stats_test = \<lparr>total = 2, positive = 1, negative = 1, pos_ratio = 1 / 2\<rparr>,
       param_train_ratio = 7 / 10, param_val_ratio = 3 / 20,
       param_test_ratio = 3 / 20, param_neg_ratio = 1, param_seed = 42\<rparr>)"
  by code_simp

lemma example_prepare_world:
  obtains w' st where
    "prepare_splits example_mt example_graph (7 / 10) (3 / 20) (3 / 20) 1 42 empty_world
       = Inr ((example_train, example_val, example_test, st), w')"
  using example_prepare
  by (cases "prepare_splits example_mt example_graph (7 / 10) (3 / 20) (3 / 20) 1 42 empty_world")
     auto

lemma example_shortfall:
  "map_sum id (\<lambda>(negs, w, att). (negs, att))
     (sample_negatives example_mt 1 1 2 empty_world 0 42) = Inr ([(0, 1)], 20)"
  by code_simp

lemma example_generate:
  obtains w1 where
    "generate_negative_samples example_mt 1 1 2 empty_world 0 42 = Inr ([(0, 1)], w1)"
proof -
  from example_shortfall obtain w1 where
    "sample_negatives example_mt 1 1 2 empty_world 0 42 = Inr ([(0, 1)], w1, 20)"
    by (cases "sample_negatives example_mt 1 1 2 empty_world 0 42") auto
  then have "generate_negative_samples example_mt 1 1 2 empty_world 0 42 = Inr ([(0, 1)], w1)"
    by (simp add: generate_negative_samples_def)
  then show ?thesis by (rule that)
qed

text \<open>
  Claim C4. With a valid seed and at least one drug and one disease, the sampler
  returns a list and never an error: after at most ten times the requested count of
  attempts, with at most the requested count of pairs, fewer only when the attempts are
  used up, all distinct and none in the set it was given. And in every split that
  \<^verbatim>\<open>prepare_splits\<close> produces, the negatives are distinct and none of them is a
  positive edge of the graph, which are the positives of the three splits together.
\<close>

theorem negative_samples_valid:
  "(0 \<le> seed \<and> seed < 2 ^ 32 \<and> 0 < num_drugs \<and> 0 < num_diseases \<longrightarrow>
      (\<exists>negs w1 attempts.
         sample_negatives mt num_drugs num_diseases n w a seed = Inr (negs, w1, attempts) \<and>
         generate_negative_samples mt num_drugs num_diseases n w a seed = Inr (negs, w1) \<and>
         int attempts \<le> max 0 (n * 10) \<and> int (length negs) \<le> max 0 n \<and>
         (int (length negs) < n \<longrightarrow> int attempts = n * 10) \<and>
         distinct negs \<and> set negs \<inter> cells w a = {})) \<and>
   (prepare_splits mt data tr v te nr sd w0 = Inr ((train_data, val_data, test_data, st), w') \<longrightarrow>
      (\<forall>d \<in> {train_data, val_data, test_data}.
         distinct (negatives d) \<and>
         set (negatives d) \<inter> set (g_edge_index data) = {}) \<and>
      set (positives train_data) \<union> set (positives val_data) \<union> set (positives test_data)
        = set (g_edge_index data))"
proof (intro conjI impI)
  assume a: "0 \<le> seed \<and> seed < 2 ^ 32 \<and> 0 < num_drugs \<and> 0 < num_diseases"
  then obtain negs w1 attempts where
    s: "sample_negatives mt num_drugs num_diseases n w a seed = Inr (negs, w1, attempts)"
    using sample_negatives_total[of seed num_drugs num_diseases mt n w a] by auto
  then have g: "generate_negative_samples mt num_drugs num_diseases n w a seed = Inr (negs, w1)"
    by (simp add: generate_negative_samples_def)
  from sample_negatives_result[OF s] s g
  show "\<exists>negs w1 attempts.
         sample_negatives mt num_drugs num_diseases n w a seed = Inr (negs, w1, attempts) \<and>
         generate_negative_samples mt num_drugs num_diseases n w a seed = Inr (negs, w1) \<and>
         int attempts \<le> max 0 (n * 10) \<and> int (length negs) \<le> max 0 n \<and>
         (int (length negs) < n \<longrightarrow> int attempts = n * 10) \<and>
         distinct negs \<and> set negs \<inter> cells w a = {}"
    by blast
next
  assume p: "prepare_splits mt data tr v te nr sd w0 = Inr ((train_data, val_data, test_data, st), w')"
  note r = prepare_splits_result[OF p]
  from r show "\<forall>d \<in> {train_data, val_data, test_data}.
         distinct (negatives d) \<and> set (negatives d) \<inter> set (g_edge_index data) = {}"
    by blast
  from r have "mset (positives train_data) + mset (positives val_data) + mset (positives test_data)
           = mset (g_edge_index data)" by blast
  then have "set_mset (mset (positives train_data) + mset (positives val_data) + mset (positives test_data))
           = set_mset (mset (g_edge_index data))" by simp
  then show "set (positives train_data) \<union> set (positives val_data) \<union> set (positives test_data)
        = set (g_edge_index data)" by simp
qed

text \<open>
  One drug, one disease and two negatives requested: the one pair there is, after all
  20 attempts. And the train split of the example graph.
\<close>

theorem negative_samples_valid_witness:
  "(\<exists>negs w1. sample_negatives example_mt 1 1 2 empty_world 0 42 = Inr (negs, w1, 20) \<and>
       length negs = 1 \<and> distinct negs) \<and>
   distinct (negatives example_train) \<and>
   set (negatives example_train) \<inter> set (g_edge_index example_graph) = {} \<and>
   set (positives example_train) \<union> set (positives example_val) \<union> set (positives example_test)
     = set (g_edge_index example_graph)"
proof -
  obtain w' st where p:
    "prepare_splits example_mt example_graph (7 / 10) (3 / 20) (3 / 20) 1 42 empty_world
       = Inr ((example_train, example_val, example_test, st), w')"
    by (rule example_prepare_world)
  note t = negative_samples_valid[where seed = 42 and num_drugs = 1 and num_diseases = 1
      and mt = example_mt and n = 2 and w = empty_world and a = 0 and data = example_graph
      and tr = "7 / 10" and v = "3 / 20" and te = "3 / 20" and nr = 1 and sd = 42
      and ?w0.0 = empty_world and train_data = example_train and val_data = example_val
      and test_data = example_test and st = st and w' = w']
  from t obtain negs w1 attempts where s:
    "sample_negatives example_mt 1 1 2 empty_world 0 42 = Inr (negs, w1, attempts)"
    "int (length negs) < 2 \<longrightarrow> int attempts = 2 * 10" "distinct negs"
    by auto
  from s(1) example_shortfall have n: "negs = [(0, 1)]" by simp
  with s(2) have "attempts = 20" by simp
  with s n have first: "\<exists>negs w1. sample_negatives example_mt 1 1 2 empty_world 0 42 = Inr (negs, w1, 20) \<and>
       length negs = 1 \<and> distinct negs" by auto
  from t p have "distinct (negatives example_train) \<and>
     set (negatives example_train) \<inter> set (g_edge_index example_graph) = {} \<and>
     set (positives example_train) \<union> set (positives example_val) \<union> set (positives example_test)
       = set (g_edge_index example_graph)"
    by blast
  with first show ?thesis by blast
qed

text \<open>
  Claim C10. A call of \<^verbatim>\<open>generate_negative_samples\<close> leaves the set object it was
  given with the accepted pairs added, so changed whenever a pair was accepted, and
  leaves every other set object alone. \<^verbatim>\<open>prepare_splits\<close> hands each call a copy:
  when it returns, the object made first still holds exactly the positive edges, and the
  three copies hold them with the negatives of the train, val and test split.
\<close>

theorem negative_sampling_mutates_its_set:
  "(generate_negative_samples mt num_drugs num_diseases n w a seed = Inr (negs, w1) \<longrightarrow>
      cells w1 a = cells w a \<union> set negs \<and>
      (\<forall>b. b \<noteq> a \<longrightarrow> cells w1 b = cells w b) \<and>
      (negs \<noteq> [] \<longrightarrow> cells w1 a \<noteq> cells w a)) \<and>
   (prepare_splits mt data tr v te nr sd w0 = Inr ((train_data, val_data, test_data, st), w') \<longrightarrow>
      cells w' (next_addr w0) = set (g_edge_index data) \<and>
      cells w' (next_addr w0 + 1) = set (g_edge_index data) \<union> set (negatives train_data) \<and>
      cells w' (next_addr w0 + 2) = set (g_edge_index data) \<union> set (negatives val_data) \<and>
      cells w' (next_addr w0 + 3) = set (g_edge_index data) \<union> set (negatives test_data))"
proof (intro conjI impI)
  assume g: "generate_negative_samples mt num_drugs num_diseases n w a seed = Inr (negs, w1)"
  note r = generate_negative_samples_result[OF g]
  from r show "cells w1 a = cells w a \<union> set negs" by simp
  from r show "\<forall>b. b \<noteq> a \<longrightarrow> cells w1 b = cells w b" by simp
  assume ne: "negs \<noteq> []"
  then obtain e where e: "e \<in> set negs" by (cases negs) auto
  with r have "e \<notin> cells w a" "e \<in> cells w1 a" by auto
  then show "cells w1 a \<noteq> cells w a" by auto
next
  assume p: "prepare_splits mt data tr v te nr sd w0 = Inr ((train_data, val_data, test_data, st), w')"
  note r = prepare_splits_result[OF p]
  from r show "cells w' (next_addr w0) = set (g_edge_index data)" by simp
  from r show "cells w' (next_addr w0 + 1) = set (g_edge_index data) \<union> set (negatives train_data)" by simp
  from r show "cells w' (next_addr w0 + 2) = set (g_edge_index data) \<union> set (negatives val_data)" by simp
  from r show "cells w' (next_addr w0 + 3) = set (g_edge_index data) \<union> set (negatives test_data)"
    by (simp add: numeral_3_eq_3)
qed

text \<open>
  The sampler on an empty set object with one drug and one disease, and the run on the
  example graph: the first object of the store is unchanged, the second is the copy
  with the two train negatives.
\<close>

theorem negative_sampling_mutates_its_set_witness:
  "\<exists>w1 w' st.
     generate_negative_samples example_mt 1 1 2 empty_world 0 42 = Inr ([(0, 1)], w1) \<and>
     cells w1 0 = {(0, 1)} \<and> cells w1 0 \<noteq> cells empty_world 0 \<and>
     prepare_splits example_mt example_graph (7 / 10) (3 / 20) (3 / 20) 1 42 empty_world
       = Inr ((example_train, example_val, example_test, st), w') \<and>
     cells w' 0 = {(0, 3), (1, 4), (2, 5), (0, 4)} \<and>
     cells w' 1 = {(0, 3), (1, 4), (2, 5), (0, 4)} \<union> {(2, 3), (1, 5)}"
proof -
  obtain w' st where p:
    "prepare_splits example_mt example_graph (7 / 10) (3 / 20) (3 / 20) 1 42 empty_world
       = Inr ((example_train, example_val, example_test, st), w')"
    by (rule example_prepare_world)
  obtain w1 where g:
    "generate_negative_samples example_mt 1 1 2 empty_world 0 42 = Inr ([(0, 1)], w1)"
    by (rule example_generate)
  have n: "negatives example_train = [(2, 3), (1, 5)]" by code_simp
  note t = negative_sampling_mutates_its_set[where data = example_graph and ?w0.0 = empty_world
      and mt = example_mt and tr = "7 / 10" and v = "3 / 20" and te = "3 / 20" and nr = 1
      and sd = 42 and train_data = example_train and val_data = example_val
      and test_data = example_test and st = st and w' = w'
      and num_drugs = 1 and num_diseases = 1 and n = 2 and w = empty_world and a = 0
      and seed = 42 and negs = "[(0, 1)]" and ?w1.0 = w1]
  from t g have a': "cells w1 0 = {(0, 1)} \<and> cells w1 0 \<noteq> cells empty_world 0"
    by (simp add: empty_world_def)
  from t p
  have b: "cells w' (next_addr empty_world) = set (g_edge_index example_graph) \<and>
        cells w' (next_addr empty_world + 1) = set (g_edge_index example_graph) \<union> set (negatives example_train)"
    by simp
  from b have b': "cells w' 0 = {(0, 3), (1, 4), (2, 5), (0, 4)} \<and>
     cells w' 1 = {(0, 3), (1, 4), (2, 5), (0, 4)} \<union> {(2, 3), (1, 5)}"
    unfolding n by (simp add: empty_world_def example_graph_def)
  from g a' p b' show ?thesis by blast
qed

text \<open>
  Claim C1 on the example graph with the default ratios and seed: the columns that
  \<^verbatim>\<open>main\<close> of the trainer and of the evaluator take from the saved train split as the
  message-passing structure, the leading \<open>num_pos\<close> ones, are the two negative samples
  of the train split and neither of its two positive edges, the split having been
  shuffled before it was saved.
\<close>

theorem leading_columns_are_not_train_positives:
  "(case prepare_splits example_mt example_graph (7 / 10) (3 / 20) (3 / 20) 1 42 empty_world of
      Inl e \<Rightarrow> False
    | Inr ((train_data, val_data, test_data, st), w) \<Rightarrow>
        train_positive_edges w = Inr [(2, 3), (1, 5)] \<and>
        positives train_data = [(0, 3), (1, 4)] \<and>
        negatives train_data = [(2, 3), (1, 5)])"
  by code_simp







subsection \<open>Candidate Generator\<close>






lemma set_py_take: "set (py_take k xs) \<subseteq> set xs"
  by (auto simp: py_take_def dest: in_set_takeD)

lemma top_indices_range: "i \<in> set (top_indices v k) \<Longrightarrow> i < length v"
  using set_py_take[of k "rev (argsort v)"] by (auto simp: top_indices_def set_argsort)


text \<open>
  A batch of any size but one yields one probability per candidate; the rows are built
  from the ranked indices in order; the existing edges hold the positives of the three
  split files.
\<close>

lemma forward_Vector_length:
  "forward m feats ei qs = Inr (Vector ls) \<Longrightarrow> length ls = length qs"
  by (auto simp: forward_def decode_def index_rows_def decoder_forward_def mlp_def squeeze_def
      split: if_splits)

lemma batch_loop_length:
  "0 < bs \<Longrightarrow> batch_loop m sg feats ei bs cands = Inr ps \<Longrightarrow> length ps = length cands"
proof (induction m sg feats ei bs cands arbitrary: ps rule: batch_loop.induct)
  case (1 m sg feats ei bs cands)
  show ?case
  proof (cases "cands = []")
    case True
    then have "batch_loop m sg feats ei bs cands = Inr []"
      by (subst batch_loop.simps) auto
    with "1.prems" True show ?thesis by auto
  next
    case False
    then have ne: "\<not> (cands = [] \<or> bs = 0)" using "1.prems"(1) by simp
    from "1.prems"(2) ne obtain ls rest where
      f: "forward m feats ei (take bs cands) = Inr (Vector ls)" and
      r: "batch_loop m sg feats ei bs (drop bs cands) = Inr rest" and
      p: "ps = map sg ls @ rest"
      by (subst (asm) batch_loop.simps) (auto split: sum.splits tensor.splits)
    from "1.IH"[OF ne f refl "1.prems"(1) r] forward_Vector_length[OF f] p
    show ?thesis by simp
  qed
qed

lemma predict_batch_length:
  "predict_batch m sg data cands bs = Inr ps \<Longrightarrow> length ps = length cands"
  by (auto simp: predict_batch_def split: if_splits dest: batch_loop_length)

lemma rows_loop_rows:
  "rows_loop em cands ps r ix = Inr rows \<Longrightarrow>
     length rows = length ix \<and>
     (\<forall>j < length ix. make_row em (r + j) (cands ! (ix ! j)) (ps ! (ix ! j)) = Inr (rows ! j))"
proof (induction ix arbitrary: r rows)
  case Nil
  then show ?case by simp
next
  case (Cons i ix)
  from Cons.prems obtain row rest where
    a: "make_row em r (cands ! i) (ps ! i) = Inr row" and
    b: "rows_loop em cands ps (Suc r) ix = Inr rest" and
    c: "rows = row # rest"
    by (auto split: sum.splits)
  from Cons.IH[OF b] have ih: "length rest = length ix"
    "\<forall>j < length ix. make_row em (Suc r + j) (cands ! (ix ! j)) (ps ! (ix ! j)) = Inr (rest ! j)"
    by simp_all
  have "\<forall>j < length (i # ix). make_row em (r + j) (cands ! ((i # ix) ! j)) (ps ! ((i # ix) ! j))
          = Inr (rows ! j)"
  proof (intro allI impI)
    fix j assume j: "j < length (i # ix)"
    show "make_row em (r + j) (cands ! ((i # ix) ! j)) (ps ! ((i # ix) ! j)) = Inr (rows ! j)"
    proof (cases j)
      case 0
      with a c show ?thesis by simp
    next
      case (Suc k)
      with j ih(2) c show ?thesis by simp
    qed
  qed
  with ih(1) c show ?case by simp
qed

lemma add_undirected_mono: "s \<subseteq> add_undirected es s \<and> set es \<subseteq> add_undirected es s"
proof (induction es arbitrary: s)
  case Nil
  then show ?case by (simp add: add_undirected_def)
next
  case (Cons e es)
  obtain a b where e: "e = (a, b)" by (cases e)
  have "add_undirected (e # es) s = add_undirected es (insert (b, a) (insert (a, b) s))"
    by (simp add: add_undirected_def e)
  with Cons[of "insert (b, a) (insert (a, b) s)"] e show ?case by auto
qed

lemma get_existing_edges_covers:
  assumes "get_existing_edges w = Inr existing"
  shows "known_positive_set w \<subseteq> existing"
proof -
  from assms obtain d1 d2 d3 where
    l: "files w ''data/processed/train_data.pt'' = Some d1"
       "files w ''data/processed/val_data.pt'' = Some d2"
       "files w ''data/processed/test_data.pt'' = Some d3" and
    e: "existing = add_undirected (positives d3) (add_undirected (positives d2)
           (add_undirected (positives d1) {}))"
    by (auto simp: get_existing_edges_def torch_load_def pos_edges_def
        split: sum.splits option.splits if_splits)
  have "set (positives d1) \<subseteq> existing" "set (positives d2) \<subseteq> existing" "set (positives d3) \<subseteq> existing"
    unfolding e using add_undirected_mono by blast+
  then show ?thesis using l by (auto simp: known_positive_set_def split_positive_set_def)
qed

lemma all_candidates_set:
  "set (all_candidates drugs diseases existing) = (set drugs \<times> set diseases) - existing"
  by (auto simp: all_candidates_def)


lemma generate_candidates_rows:
  assumes "generate_candidates m sg data em drugs diseases existing top_k = Inr predictions"
  shows "\<exists>probs. predict_batch m sg data (all_candidates drugs diseases existing) 2000 = Inr probs \<and>
           length probs = length (all_candidates drugs diseases existing) \<and>
           length predictions = length (top_indices probs top_k) \<and>
           (\<forall>j < length predictions.
              make_row em (Suc j) (all_candidates drugs diseases existing ! (top_indices probs top_k ! j))
                (probs ! (top_indices probs top_k ! j)) = Inr (predictions ! j))"
proof -
  let ?c = "all_candidates drugs diseases existing"
  from assms obtain probs where
    p: "predict_batch m sg data ?c 2000 = Inr probs" and
    r: "rows_loop em ?c probs 1 (top_indices probs top_k) = Inr predictions"
    by (auto simp: generate_candidates_def Let_def split: sum.splits if_splits)
  from rows_loop_rows[OF r] predict_batch_length[OF p] p show ?thesis by auto
qed

text \<open>The two examples, by evaluation.\<close>

lemma example_get_existing_edges: "get_existing_edges example_store = Inr example_existing"
  by code_simp

lemma example_generate_candidates:
  "generate_candidates example_model (\<lambda>v. v) example_graph example_entities [0, 1, 2] [3, 4, 5]
     example_existing 3 = Inr example_predictions"
  by code_simp


text \<open>
  Claim C3. When the existing edges are those that \<^verbatim>\<open>get_existing_edges\<close> reads from
  the three split files, every row that \<^verbatim>\<open>generate_candidates\<close> returns is the row of
  a pair of a drug index and a disease index, the row at place \<open>j\<close> with rank
  \<open>j + 1\<close>, and none of these pairs is a positive pair of the train, the val or the
  test split.
\<close>

theorem candidates_exclude_known_positives:
  assumes "get_existing_edges w = Inr existing_edges"
    and "generate_candidates m sigmoid data entity_map drug_indices disease_indices
           existing_edges top_k = Inr predictions"
  shows "\<exists>pairs probs.
           length pairs = length predictions \<and> length probs = length predictions \<and>
           (\<forall>j < length predictions.
              make_row entity_map (Suc j) (pairs ! j) (probs ! j) = Inr (predictions ! j)) \<and>
           (\<forall>p \<in> set pairs. p \<in> set drug_indices \<times> set disease_indices \<and>
                             p \<notin> known_positive_set w)"
proof -
  let ?c = "all_candidates drug_indices disease_indices existing_edges"
  from generate_candidates_rows[OF assms(2)] obtain ps where
    l: "length ps = length ?c" "length predictions = length (top_indices ps top_k)" and
    r: "\<forall>j < length predictions.
          make_row entity_map (Suc j) (?c ! (top_indices ps top_k ! j)) (ps ! (top_indices ps top_k ! j))
            = Inr (predictions ! j)"
    by blast
  let ?ix = "top_indices ps top_k"
  let ?pairs = "map (\<lambda>i. ?c ! i) ?ix"
  let ?probs = "map (\<lambda>i. ps ! i) ?ix"
  have rows: "\<forall>j < length predictions.
      make_row entity_map (Suc j) (?pairs ! j) (?probs ! j) = Inr (predictions ! j)"
    using r l(2) by simp
  have "\<forall>p \<in> set ?pairs. p \<in> set drug_indices \<times> set disease_indices \<and> p \<notin> known_positive_set w"
  proof
    fix p assume "p \<in> set ?pairs"
    then obtain i where i: "i \<in> set ?ix" "p = ?c ! i" by auto
    then have "i < length ?c" using top_indices_range[of i ps top_k] l(1) by simp
    then have "p \<in> set ?c" using i(2) by simp
    then have "p \<in> set drug_indices \<times> set disease_indices" "p \<notin> existing_edges"
      by (simp_all add: all_candidates_set)
    with get_existing_edges_covers[OF assms(1)]
    show "p \<in> set drug_indices \<times> set disease_indices \<and> p \<notin> known_positive_set w" by auto
  qed
  with rows l(2) show ?thesis
    by (intro exI[of _ ?pairs] exI[of _ ?probs]) simp
qed

text \<open>
  The example graph and its splits with \<open>top_k = 3\<close>: three rows, of three pairs
  outside the known positives.
\<close>

theorem candidates_exclude_known_positives_witness:
  "\<exists>pairs. length pairs = 3 \<and>
     list_all (\<lambda>p. p \<in> set [0, 1, 2] \<times> set [3, 4, 5] \<and> p \<notin> known_positive_set example_store) pairs"
proof -
  from candidates_exclude_known_positives[OF example_get_existing_edges example_generate_candidates]
  obtain pairs where a: "length pairs = length example_predictions" and
    b: "\<forall>p \<in> set pairs. p \<in> set [0, 1, 2] \<times> set [3, 4, 5] \<and> p \<notin> known_positive_set example_store"
    by blast
  from a have "length pairs = 3" by (simp add: example_predictions_def)
  moreover from b have
    "list_all (\<lambda>p. p \<in> set [0, 1, 2] \<times> set [3, 4, 5] \<and> p \<notin> known_positive_set example_store) pairs"
    by (simp only: list_all_iff)
  ultimately show ?thesis by (intro exI conjI)
qed




end
